theory Spec2Isabelle
  imports Main "HOL-Library.Word"
begin

section \<open>The FastAPI bridge of sllurp (examples/fastapi/app.py)\<close>

text \<open>
  The service keeps four module-level globals (\<open>READER\<close>, \<open>TAG_DATA\<close>, \<open>TAG_QUEUE\<close>,
  \<open>ACTIVE_CONNECTIONS\<close>), mutates them from HTTP handlers, from a WebSocket handler, from
  two callbacks of the LLRP client library and from a polling coroutine. Each function of
  app.py becomes a function from the state of these globals to an outcome and a new
  state. An exception that a function lets escape is the \<open>Inl\<close> outcome; the state that
  comes with it holds every assignment made before the raise.

  The coroutines give up control at their \<open>await\<close>s, and what runs there is part of the
  model where the globals are read again afterwards: each \<open>await connection.send_json\<close>
  of the polling loop comes back with the outcome of the send and after the steps of the
  service that ran meanwhile; the WebSocket handler is run up to the point where it
  waits in \<open>receive_text\<close>, and its \<open>except\<close> clauses are a step of their own, which may
  come after other steps. The startup hook \<open>lifespan\<close> only creates the client and the
  polling task; it appears as the step that puts a client in \<open>READER\<close>.
\<close>

subsection \<open>Values\<close>

type_synonym bytes = "8 word list"

text \<open>
  What can be raised. All are below Python's \<open>Exception\<close> class but
  \<open>CancelledError\<close>: \<open>asyncio.CancelledError\<close>, raised at an \<open>await\<close> of a task that is
  being cancelled, derives from \<open>BaseException\<close>, and \<open>except Exception\<close> lets it pass.
  \<open>OtherError\<close> is any other exception below \<open>Exception\<close>, with its message.
\<close>

datatype exn =
    AttributeError
  | KeyError string
  | ValueError
  | UnicodeDecodeError
  | WebSocketDisconnect
  | OtherError string
  | CancelledError

text \<open>\<open>isinstance(e, Exception)\<close>\<close>

definition is_Exception :: "exn \<Rightarrow> bool" where
  "is_Exception e = (e \<noteq> CancelledError)"

text \<open>What the handlers return and what is sent on a WebSocket.\<close>

datatype json =
    JNull
  | JBool bool
  | JInt int
  | JStr string
  | JArr "json list"
  | JObj "(string \<times> json) list"

text \<open>The pydantic model \<open>RFIDTag\<close>.\<close>

record RFIDTag =
  epc :: string
  channel :: int
  last_seen :: int
  seen_count :: int

text \<open>
  One entry of \<open>tag_reports\<close>: the library's dict, read by the callback at four keys.
  A key that the dict does not have is \<open>None\<close>.
\<close>

record tag_report =
  EPC :: "bytes option"
  ChannelIndex :: "int option"
  LastSeenTimestampUTC :: "int option"
  TagSeenCount :: "int option"

text \<open>
  The event dict given to the event callback. \<open>ev_GPIEvent\<close> is the value at key
  \<open>GPIEvent\<close> (\<open>None\<close> when the key is absent), itself a dict read with \<open>.get\<close> at the
  keys \<open>GPIPortNumber\<close> and \<open>GPIEvent\<close>.
\<close>

record gpi_event =
  GPIPortNumber :: "int option"
  GPIEvent :: "bool option"

record event =
  ev_GPIEvent :: "gpi_event option"
  ev_ConnectionAttemptEvent :: "string option"

text \<open>A WebSocket object is known by its identity.\<close>

type_synonym connection = nat

text \<open>The calls of \<open>logging.info\<close> and \<open>logging.error\<close>, by call site, with their arguments.\<close>

datatype log_record =
    Info_Processing_tags json
  | Info_Sent_tags
  | Error_sending exn
  | Info_Received_tags nat
  | Info_GPI_Event gpi_event
  | Info_Starting_inventory_via_GPI
  | Info_Stopping_inventory
  | Info_Connection_Event string
  | Info_Other_Event event
  | Info_New_WebSocket
  | Info_WebSocket_accepted
  | Info_WebSocket_disconnected
  | Error_WebSocket exn

subsection \<open>The reader client library\<close>

text \<open>
  \<open>sllurp.llrp\<close> is outside app.py. The client object has an abstract type \<open>'c\<close>, and
  what app.py asks of it is a parameter: \<open>is_alive()\<close>, the attribute \<open>llrp.state\<close>, the
  calls \<open>llrp.startInventory()\<close> and \<open>llrp.stopPolitely()\<close> (each gives the client after
  the call and the exception it raised, if any) and \<open>LLRPReaderState.getStateName\<close>.
\<close>

record 'c library =
  is_alive :: "'c \<Rightarrow> bool"
  llrp_state :: "'c \<Rightarrow> exn + int"
  startInventory :: "'c \<Rightarrow> exn option \<times> 'c"
  stopPolitely :: "'c \<Rightarrow> exn option \<times> 'c"
  getStateName :: "int \<Rightarrow> exn + string"

subsection \<open>The globals\<close>

text \<open>
  \<open>ws_sent\<close> is the wire: the messages delivered so far, with the connection each went
  to. \<open>LOG\<close> is what was logged. The other four fields are the module's globals;
  \<open>TAG_QUEUE\<close> is first-in first-out, oldest item at the head.
\<close>

record 'c app =
  READER :: "'c option"
  TAG_DATA :: "RFIDTag list"
  TAG_QUEUE :: "json list"
  ACTIVE_CONNECTIONS :: "connection list"
  ws_sent :: "(connection \<times> json) list"
  LOG :: "log_record list"

definition logging :: "log_record \<Rightarrow> 'c app \<Rightarrow> 'c app" where
  "logging r s = s\<lparr>LOG := LOG s @ [r]\<rparr>"

text \<open>The module as imported: no reader, nothing stored, nobody connected.\<close>

definition initial :: "'c app" where
  "initial = \<lparr>READER = None, TAG_DATA = [], TAG_QUEUE = [], ACTIVE_CONNECTIONS = [],
     ws_sent = [], LOG = []\<rparr>"

subsection \<open>Starting and stopping inventory\<close>

definition clear_tag_data :: "'c app \<Rightarrow> 'c app" where
  "clear_tag_data s = s\<lparr>TAG_DATA := []\<rparr>"

text \<open>A call on \<open>READER.llrp\<close>: the client is replaced by the one the library leaves.\<close>

definition llrp_call :: "('c \<Rightarrow> exn option \<times> 'c) \<Rightarrow> 'c \<Rightarrow> 'c app \<Rightarrow> (exn + unit) \<times> 'c app" where
  "llrp_call f c s =
     (case f c of
        (None, c') \<Rightarrow> (Inr (), s\<lparr>READER := Some c'\<rparr>)
      | (Some e, c') \<Rightarrow> (Inl e, s\<lparr>READER := Some c'\<rparr>))"

text \<open>\<open>READER and READER.is_alive()\<close>\<close>

definition reader_alive :: "'c library \<Rightarrow> 'c app \<Rightarrow> bool" where
  "reader_alive lib s = (case READER s of None \<Rightarrow> False | Some c \<Rightarrow> is_alive lib c)"

definition start_reading :: "'c library \<Rightarrow> 'c app \<Rightarrow> (exn + unit) \<times> 'c app" where
  "start_reading lib s =
     (case READER s of
        None \<Rightarrow> (Inr (), s)
      | Some c \<Rightarrow>
          if is_alive lib c
          then llrp_call (startInventory lib) c (clear_tag_data s)
          else (Inr (), s))"

definition stop_reading :: "'c library \<Rightarrow> 'c app \<Rightarrow> (exn + unit) \<times> 'c app" where
  "stop_reading lib s =
     (case READER s of
        None \<Rightarrow> (Inr (), s)
      | Some c \<Rightarrow>
          if is_alive lib c
          then llrp_call (stopPolitely lib) c s
          else (Inr (), s))"

subsection \<open>The tag-report callback\<close>

text \<open>\<open>bytes.decode("ascii")\<close>: every byte must be below 128.\<close>

definition decode_ascii :: "bytes \<Rightarrow> exn + string" where
  "decode_ascii bs =
     (if list_all (\<lambda>b. b < 128) bs then Inr (map (\<lambda>b. char_of (unat b)) bs)
      else Inl UnicodeDecodeError)"

text \<open>
  The constructor call \<open>RFIDTag(epc=..., channel=..., last_seen=..., seen_count=...)\<close>:
  the four arguments are evaluated in this order, and the first that raises ends it.
\<close>

definition make_RFIDTag :: "tag_report \<Rightarrow> exn + RFIDTag" where
  "make_RFIDTag t =
     (case EPC t of
        None \<Rightarrow> Inl (KeyError ''EPC'')
      | Some b \<Rightarrow>
     (case decode_ascii b of
        Inl e \<Rightarrow> Inl e
      | Inr e \<Rightarrow>
     (case ChannelIndex t of
        None \<Rightarrow> Inl (KeyError ''ChannelIndex'')
      | Some c \<Rightarrow>
     (case LastSeenTimestampUTC t of
        None \<Rightarrow> Inl (KeyError ''LastSeenTimestampUTC'')
      | Some l \<Rightarrow>
     (case TagSeenCount t of
        None \<Rightarrow> Inl (KeyError ''TagSeenCount'')
      | Some n \<Rightarrow>
          Inr \<lparr>epc = e, channel = c, last_seen = l, seen_count = n\<rparr>)))))"

text \<open>The list comprehension over \<open>tag_reports\<close>.\<close>

fun tag_records :: "tag_report list \<Rightarrow> exn + RFIDTag list" where
  "tag_records [] = Inr []"
| "tag_records (t # ts) =
     (case make_RFIDTag t of
        Inl e \<Rightarrow> Inl e
      | Inr r \<Rightarrow> (case tag_records ts of Inl e \<Rightarrow> Inl e | Inr rs \<Rightarrow> Inr (r # rs)))"

definition model_dump :: "RFIDTag \<Rightarrow> json" where
  "model_dump r =
     JObj [(''epc'', JStr (epc r)), (''channel'', JInt (channel r)),
           (''last_seen'', JInt (last_seen r)), (''seen_count'', JInt (seen_count r))]"

text \<open>
  \<open>tag_report_cb(_reader, tag_reports)\<close>; the first argument is not read. The global is
  assigned only once the whole comprehension has been evaluated.
\<close>

definition tag_report_cb :: "tag_report list \<Rightarrow> 'c app \<Rightarrow> (exn + unit) \<times> 'c app" where
  "tag_report_cb tag_reports s =
     (case tag_records tag_reports of
        Inl e \<Rightarrow> (Inl e, s)
      | Inr recs \<Rightarrow>
          (let s1 = s\<lparr>TAG_DATA := recs\<rparr>;
               serializable_tags = map model_dump (TAG_DATA s1);
               s2 = s1\<lparr>TAG_QUEUE := TAG_QUEUE s1 @ [JArr serializable_tags]\<rparr>
           in (Inr (), logging (Info_Received_tags (length tag_reports)) s2)))"

subsection \<open>The event callback\<close>

text \<open>
  The first \<open>if\<close> of \<open>handle_event\<close>. A dict that has the key \<open>GPIPortNumber\<close> is not
  empty, so the test \<open>gpi_event and ...\<close> is the test of the port number.
\<close>

definition handle_gpi :: "'c library \<Rightarrow> event \<Rightarrow> 'c app \<Rightarrow> (exn + unit) \<times> 'c app" where
  "handle_gpi lib ev s =
     (case ev_GPIEvent ev of
        None \<Rightarrow> (Inr (), s)
      | Some g \<Rightarrow>
          (let s1 = logging (Info_GPI_Event g) s in
           if GPIPortNumber g = Some 1 then
             (if GPIEvent g = Some True then
                (if reader_alive lib s1
                 then start_reading lib (logging Info_Starting_inventory_via_GPI s1)
                 else (Inr (), s1))
              else stop_reading lib (logging Info_Stopping_inventory s1))
           else (Inr (), s1)))"

definition handle_event :: "'c library \<Rightarrow> event \<Rightarrow> 'c app \<Rightarrow> (exn + unit) \<times> 'c app" where
  "handle_event lib ev s =
     (case handle_gpi lib ev s of
        (Inl e, s') \<Rightarrow> (Inl e, s')
      | (Inr u, s') \<Rightarrow>
          (case ev_ConnectionAttemptEvent ev of
             Some ce \<Rightarrow> (Inr (), logging (Info_Connection_Event ce) s')
           | None \<Rightarrow> (Inr (), logging (Info_Other_Event ev) s')))"

subsection \<open>The WebSocket endpoint\<close>

text \<open>\<open>list.remove\<close>: the first occurrence goes; \<open>ValueError\<close> when there is none.\<close>

definition list_remove :: "'a \<Rightarrow> 'a list \<Rightarrow> exn + 'a list" where
  "list_remove x xs = (if x \<in> set xs then Inr (remove1 x xs) else Inl ValueError)"

text \<open>What successive \<open>await websocket.receive_text()\<close> give: a text, or an exception.\<close>

datatype ws_event = Text string | Raise exn

text \<open>
  \<open>while True: await websocket.receive_text()\<close>. The loop ends only by an exception;
  \<open>None\<close> is the handler still waiting when the events are used up.
\<close>

fun receive_loop :: "ws_event list \<Rightarrow> exn option" where
  "receive_loop [] = None"
| "receive_loop (Text m # evs) = receive_loop evs"
| "receive_loop (Raise e # evs) = Some e"

text \<open>
  The two \<open>except\<close> clauses. What is not an \<open>Exception\<close> matches neither and leaves the
  handler as it came.
\<close>

definition receive_failed :: "exn \<Rightarrow> connection \<Rightarrow> 'c app \<Rightarrow> (exn + unit) \<times> 'c app" where
  "receive_failed e websocket s =
     (if e = WebSocketDisconnect then
        (let s1 = logging Info_WebSocket_disconnected s in
         case list_remove websocket (ACTIVE_CONNECTIONS s1) of
           Inl ve \<Rightarrow> (Inl ve, s1)
         | Inr l \<Rightarrow> (Inr (), s1\<lparr>ACTIVE_CONNECTIONS := l\<rparr>))
      else if is_Exception e then
        (let s1 = logging (Error_WebSocket e) s in
         if websocket \<in> set (ACTIVE_CONNECTIONS s1)
         then (Inr (), s1\<lparr>ACTIVE_CONNECTIONS := remove1 websocket (ACTIVE_CONNECTIONS s1)\<rparr>)
         else (Inr (), s1))
      else (Inl e, s))"

text \<open>
  \<open>accepted\<close> is what \<open>await websocket.accept()\<close> does: \<open>None\<close> when it returns. The
  outcome of the handler is \<open>None\<close> while it has not returned.
\<close>

definition websocket_endpoint ::
  "connection \<Rightarrow> exn option \<Rightarrow> ws_event list \<Rightarrow> 'c app \<Rightarrow> (exn + unit) option \<times> 'c app" where
  "websocket_endpoint websocket accepted evs s =
     (let s1 = logging Info_New_WebSocket s in
      case accepted of
        Some e \<Rightarrow> (Some (Inl e), s1)
      | None \<Rightarrow>
          (let s2 = logging Info_WebSocket_accepted s1;
               s3 = s2\<lparr>ACTIVE_CONNECTIONS := ACTIVE_CONNECTIONS s2 @ [websocket]\<rparr>
           in case receive_loop evs of
                None \<Rightarrow> (None, s3)
              | Some e \<Rightarrow> (case receive_failed e websocket s3 of (r, s4) \<Rightarrow> (Some r, s4))))"

subsection \<open>The HTTP handlers\<close>

definition start :: "'c library \<Rightarrow> 'c app \<Rightarrow> (exn + json) \<times> 'c app" where
  "start lib s =
     (case start_reading lib s of
        (Inl e, s') \<Rightarrow> (Inl e, s')
      | (Inr u, s') \<Rightarrow> (Inr (JObj [(''message'', JStr ''Reading started'')]), s'))"

definition stop :: "'c library \<Rightarrow> 'c app \<Rightarrow> (exn + json) \<times> 'c app" where
  "stop lib s =
     (case stop_reading lib s of
        (Inl e, s') \<Rightarrow> (Inl e, s')
      | (Inr u, s') \<Rightarrow> (Inr (JObj [(''message'', JStr ''Reading stopped'')]), s'))"

text \<open>
  \<open>/start-stop\<close> has no \<open>return\<close>: the response is \<open>null\<close>. The second of sleep
  between the two calls changes none of the globals by itself.
\<close>

definition start_stop :: "'c library \<Rightarrow> 'c app \<Rightarrow> (exn + json) \<times> 'c app" where
  "start_stop lib s =
     (case start_reading lib s of
        (Inl e, s1) \<Rightarrow> (Inl e, s1)
      | (Inr u, s1) \<Rightarrow>
          (case stop_reading lib s1 of
             (Inl e, s2) \<Rightarrow> (Inl e, s2)
           | (Inr v, s2) \<Rightarrow> (Inr JNull, s2)))"

definition get_tags :: "'c app \<Rightarrow> (exn + json) \<times> 'c app" where
  "get_tags s = (Inr (JObj [(''tags'', JArr (map model_dump (TAG_DATA s)))]), s)"

text \<open>\<open>READER.is_alive()\<close> and \<open>READER.llrp\<close> on \<open>None\<close> raise \<open>AttributeError\<close>.\<close>

definition status :: "'c library \<Rightarrow> 'c app \<Rightarrow> (exn + json) \<times> 'c app" where
  "status lib s =
     (case READER s of
        None \<Rightarrow> (Inl AttributeError, s)
      | Some c \<Rightarrow> (Inr (JObj [(''status'', JBool (is_alive lib c))]), s))"

text \<open>
  The dict display evaluates the value of \<open>"state"\<close> first (\<open>READER.llrp.state\<close>, then
  \<open>getStateName\<close> of it) and then the value of \<open>"code"\<close> (\<open>READER.llrp.state\<close> again).
\<close>

definition is_reading :: "'c library \<Rightarrow> 'c app \<Rightarrow> (exn + json) \<times> 'c app" where
  "is_reading lib s =
     (case READER s of
        None \<Rightarrow> (Inl AttributeError, s)
      | Some c \<Rightarrow>
     (case llrp_state lib c of
        Inl e \<Rightarrow> (Inl e, s)
      | Inr st \<Rightarrow>
     (case getStateName lib st of
        Inl e \<Rightarrow> (Inl e, s)
      | Inr name \<Rightarrow>
     (case llrp_state lib c of
        Inl e \<Rightarrow> (Inl e, s)
      | Inr code \<Rightarrow> (Inr (JObj [(''state'', JStr name), (''code'', JInt code)]), s)))))"

definition clear :: "'c app \<Rightarrow> (exn + json) \<times> 'c app" where
  "clear s = (Inr (JObj [(''message'', JStr ''Tag data cleared'')]), clear_tag_data s)"

subsection \<open>The steps of the service\<close>

text \<open>
  What runs in the service besides the polling loop, each step run to its end or to the
  point where it waits. The client in \<open>READER\<close> is put there by the startup hook and
  changed by the library's own thread (\<open>Library_sets\<close>); the library calls the two
  callbacks; the framework calls the HTTP handlers and the WebSocket endpoint, whose
  \<open>except\<close> clauses run when \<open>receive_text\<close> raises, possibly after other steps
  (\<open>Receive_failed\<close>). Outcomes are dropped, the globals are kept.
\<close>

datatype 'c step =
    Library_sets 'c
  | Tag_report "tag_report list"
  | Event event
  | Get_start
  | Get_stop
  | Get_start_stop
  | Get_last_read
  | Get_status
  | Get_state
  | Get_clear
  | Websocket connection "exn option" "ws_event list"
  | Receive_failed exn connection

fun do_step :: "'c library \<Rightarrow> 'c step \<Rightarrow> 'c app \<Rightarrow> 'c app" where
  "do_step lib (Library_sets c) s = s\<lparr>READER := Some c\<rparr>"
| "do_step lib (Tag_report batch) s = snd (tag_report_cb batch s)"
| "do_step lib (Event ev) s = snd (handle_event lib ev s)"
| "do_step lib Get_start s = snd (start lib s)"
| "do_step lib Get_stop s = snd (stop lib s)"
| "do_step lib Get_start_stop s = snd (start_stop lib s)"
| "do_step lib Get_last_read s = snd (get_tags s)"
| "do_step lib Get_status s = snd (status lib s)"
| "do_step lib Get_state s = snd (is_reading lib s)"
| "do_step lib Get_clear s = snd (clear s)"
| "do_step lib (Websocket c accepted evs) s = snd (websocket_endpoint c accepted evs s)"
| "do_step lib (Receive_failed e c) s = snd (receive_failed e c s)"

fun run_steps :: "'c library \<Rightarrow> 'c step list \<Rightarrow> 'c app \<Rightarrow> 'c app" where
  "run_steps lib [] s = s"
| "run_steps lib (st # sts) s = run_steps lib sts (do_step lib st s)"

subsection \<open>The polling loop\<close>

text \<open>
  \<open>await connection.send_json(msg)\<close>: the coroutine waits, and goes on with the outcome
  of the send (\<open>None\<close> when the message is delivered, the exception otherwise) after the
  steps that ran while it waited. Both are the network's.
\<close>

type_synonym 'c network = "connection \<Rightarrow> json \<Rightarrow> exn option \<times> 'c step list"

text \<open>
  The \<open>for\<close> loop over the copy \<open>ACTIVE_CONNECTIONS[:]\<close>. The \<open>except\<close> clause reads
  \<open>ACTIVE_CONNECTIONS\<close> as it is after the wait; its \<open>remove\<close> is not guarded, and a
  \<open>ValueError\<close> from it leaves the coroutine, as does what is not an \<open>Exception\<close>.
\<close>

fun send_to_all ::
  "'c library \<Rightarrow> 'c network \<Rightarrow> json \<Rightarrow> connection list \<Rightarrow> 'c app \<Rightarrow> (exn + unit) \<times> 'c app" where
  "send_to_all lib net msg [] s = (Inr (), s)"
| "send_to_all lib net msg (connection # cs) s =
     (let s' = run_steps lib (snd (net connection msg)) s in
      case fst (net connection msg) of
        None \<Rightarrow>
          send_to_all lib net msg cs
            (logging Info_Sent_tags (s'\<lparr>ws_sent := ws_sent s' @ [(connection, msg)]\<rparr>))
      | Some e \<Rightarrow>
          if is_Exception e then
            (let s1 = logging (Error_sending e) s' in
             case list_remove connection (ACTIVE_CONNECTIONS s1) of
               Inl ve \<Rightarrow> (Inl ve, s1)
             | Inr l \<Rightarrow> send_to_all lib net msg cs (s1\<lparr>ACTIVE_CONNECTIONS := l\<rparr>))
          else (Inl e, s'))"

text \<open>The body of \<open>while True\<close>, up to the \<open>sleep(0.1)\<close> that ends it.\<close>

definition process_queue_body :: "'c library \<Rightarrow> 'c network \<Rightarrow> 'c app \<Rightarrow> (exn + unit) \<times> 'c app" where
  "process_queue_body lib net s =
     (case TAG_QUEUE s of
        [] \<Rightarrow> (Inr (), s)
      | tags # rest \<Rightarrow>
          (let s1 = logging (Info_Processing_tags tags) (s\<lparr>TAG_QUEUE := rest\<rparr>)
           in send_to_all lib net (JObj [(''tags'', tags)]) (ACTIVE_CONNECTIONS s1) s1))"

text \<open>
  \<open>process_queue\<close> never returns. It is run here for as many iterations as there are
  ticks in the list. A tick is the network of the iteration and what
  \<open>await asyncio.sleep(0.1)\<close> comes back with: the exception raised there, if any, and
  the steps that ran during the sleep. The outcome is \<open>None\<close> when the loop is still
  running after the ticks, and the exception if one has left the coroutine.
\<close>

type_synonym 'c tick = "'c network \<times> exn option \<times> 'c step list"

fun process_queue :: "'c library \<Rightarrow> 'c tick list \<Rightarrow> 'c app \<Rightarrow> exn option \<times> 'c app" where
  "process_queue lib [] s = (None, s)"
| "process_queue lib ((net, slept, meanwhile) # ticks) s =
     (case process_queue_body lib net s of
        (Inl e, s') \<Rightarrow> (Some e, s')
      | (Inr u, s') \<Rightarrow>
          (let s'' = run_steps lib meanwhile s' in
           case slept of
             Some e \<Rightarrow> (Some e, s'')
           | None \<Rightarrow> process_queue lib ticks s''))"

subsection \<open>The service at work\<close>

text \<open>
  A sequence of the things that happen to the service: a step, or one iteration of the
  polling loop (\<open>Poll\<close>) with the network it meets.
\<close>

datatype 'c operation =
    Step "'c step"
  | Poll "'c network"

fun perform :: "'c library \<Rightarrow> 'c operation \<Rightarrow> 'c app \<Rightarrow> 'c app" where
  "perform lib (Step st) s = do_step lib st s"
| "perform lib (Poll net) s = snd (process_queue_body lib net s)"

fun run :: "'c library \<Rightarrow> 'c operation list \<Rightarrow> 'c app \<Rightarrow> 'c app" where
  "run lib [] s = s"
| "run lib (op # ops) s = run lib ops (perform lib op s)"

subsection \<open>Vocabulary of the properties\<close>

text \<open>Whether the network delivers a message to a connection.\<close>

definition delivered :: "'c network \<Rightarrow> json \<Rightarrow> connection \<Rightarrow> bool" where
  "delivered net msg c = (fst (net c msg) = None)"

text \<open>A step that neither opens nor closes a connection.\<close>

definition keeps_connections :: "'c step \<Rightarrow> bool" where
  "keeps_connections st =
     (case st of Websocket c accepted evs \<Rightarrow> False | Receive_failed e c \<Rightarrow> False | _ \<Rightarrow> True)"

text \<open>
  The sends of a message to the connections \<open>cs\<close> are calm: while each is awaited no
  connection is opened or closed, and what a send raises is an \<open>Exception\<close>.
\<close>

definition calm :: "'c network \<Rightarrow> json \<Rightarrow> connection list \<Rightarrow> bool" where
  "calm net msg cs =
     list_all (\<lambda>c. list_all keeps_connections (snd (net c msg)) \<and>
                    (case fst (net c msg) of None \<Rightarrow> True | Some e \<Rightarrow> is_Exception e)) cs"

text \<open>
  A sequence of invocations of the tag-report callback. The caller is the library: what
  it does with an exception of the callback is not app.py's, the globals stay as the
  callback left them.
\<close>

fun tag_report_cbs :: "tag_report list list \<Rightarrow> 'c app \<Rightarrow> 'c app" where
  "tag_report_cbs [] s = s"
| "tag_report_cbs (b # bs) s = tag_report_cbs bs (snd (tag_report_cb b s))"

text \<open>
  A record is the translation of a report: the \<open>epc\<close> is the ASCII decoding of the bytes at
  \<open>EPC\<close>, the three numbers are the values at the three other keys.
\<close>

definition translated :: "tag_report \<Rightarrow> RFIDTag \<Rightarrow> bool" where
  "translated t r =
     (case EPC t of
        None \<Rightarrow> False
      | Some b \<Rightarrow>
          decode_ascii b = Inr (epc r) \<and> ChannelIndex t = Some (channel r) \<and>
          LastSeenTimestampUTC t = Some (last_seen r) \<and> TagSeenCount t = Some (seen_count r))"

text \<open>
  A report that the callback can translate: it has the four keys, and the bytes at
  \<open>EPC\<close> are ASCII.
\<close>

definition well_formed :: "tag_report \<Rightarrow> bool" where
  "well_formed t =
     (case EPC t of
        None \<Rightarrow> False
      | Some b \<Rightarrow>
          list_all (\<lambda>x. x < 128) b \<and> ChannelIndex t \<noteq> None \<and>
          LastSeenTimestampUTC t \<noteq> None \<and> TagSeenCount t \<noteq> None)"

text \<open>
  The shape of what goes over a WebSocket: \<open>{"tags": [...]}\<close>, an object with the single
  key \<open>tags\<close> at a list of serialized tags, each an object with the four fields of
  \<open>RFIDTag\<close>.
\<close>

definition is_tag_dump :: "json \<Rightarrow> bool" where
  "is_tag_dump j =
     (case j of
        JObj [(k1, JStr e), (k2, JInt c), (k3, JInt l), (k4, JInt n)] \<Rightarrow>
          k1 = ''epc'' \<and> k2 = ''channel'' \<and> k3 = ''last_seen'' \<and> k4 = ''seen_count''
      | _ \<Rightarrow> False)"

definition is_tag_list :: "json \<Rightarrow> bool" where
  "is_tag_list j = (case j of JArr xs \<Rightarrow> list_all is_tag_dump xs | _ \<Rightarrow> False)"

definition is_tags_message :: "json \<Rightarrow> bool" where
  "is_tags_message j = (case j of JObj [(k, v)] \<Rightarrow> k = ''tags'' \<and> is_tag_list v | _ \<Rightarrow> False)"

text \<open>Every queued item is a list of serialized tags, every message on the wire has the shape.\<close>

definition wire_ok :: "'c app \<Rightarrow> bool" where
  "wire_ok s = (list_all is_tag_list (TAG_QUEUE s) \<and> list_all (\<lambda>p. is_tags_message (snd p)) (ws_sent s))"

subsection \<open>A reader client for the examples\<close>

text \<open>
  A client is a pair: whether its thread is alive, and its state code. Starting
  inventory moves it to state 2, stopping to state 3; the states 1, 2 and 3 have names.
\<close>

definition example_library :: "(bool \<times> int) library" where
  "example_library =
     \<lparr>is_alive = fst,
      llrp_state = (\<lambda>c. Inr (snd c)),
      startInventory = (\<lambda>c. (None, (fst c, 2))),
      stopPolitely = (\<lambda>c. (None, (fst c, 3))),
      getStateName = (\<lambda>n. if n = 1 then Inr ''STATE_CONNECTED''
                          else if n = 2 then Inr ''STATE_INVENTORYING''
                          else if n = 3 then Inr ''STATE_PAUSED''
                          else Inl (OtherError ''unknown state''))\<rparr>"

definition old_tag :: RFIDTag where
  "old_tag = \<lparr>epc = ''e280'', channel = 1, last_seen = 100, seen_count = 1\<rparr>"

definition connected :: "bool \<Rightarrow> (bool \<times> int) app" where
  "connected a = initial\<lparr>READER := Some (a, 1), TAG_DATA := [old_tag]\<rparr>"

text \<open>GPI events: port 1 going high or low, and port 2 going high.\<close>

definition gpi_port1 :: "bool \<Rightarrow> event" where
  "gpi_port1 flag =
     \<lparr>ev_GPIEvent = Some \<lparr>GPIPortNumber = Some 1, GPIEvent = Some flag\<rparr>,
      ev_ConnectionAttemptEvent = None\<rparr>"

definition gpi_port2 :: event where
  "gpi_port2 =
     \<lparr>ev_GPIEvent = Some \<lparr>GPIPortNumber = Some 2, GPIEvent = Some True\<rparr>,
      ev_ConnectionAttemptEvent = None\<rparr>"

text \<open>
  Tag reports: two whose \<open>EPC\<close> is ASCII (\<open>e280\<close>, which translates to \<open>old_tag\<close>, and
  \<open>e281\<close>), and one whose \<open>EPC\<close> is the single byte \<open>0xFF\<close>.
\<close>

definition report_e280 :: tag_report where
  "report_e280 = \<lparr>EPC = Some [0x65, 0x32, 0x38, 0x30], ChannelIndex = Some 1,
     LastSeenTimestampUTC = Some 100, TagSeenCount = Some 1\<rparr>"

definition report_ff :: tag_report where
  "report_ff = \<lparr>EPC = Some [0xFF], ChannelIndex = Some 1,
     LastSeenTimestampUTC = Some 200, TagSeenCount = Some 1\<rparr>"

definition report_e281 :: tag_report where
  "report_e281 = \<lparr>EPC = Some [0x65, 0x32, 0x38, 0x31], ChannelIndex = Some 2,
     LastSeenTimestampUTC = Some 300, TagSeenCount = Some 5\<rparr>"

definition new_tag :: RFIDTag where
  "new_tag = \<lparr>epc = ''e281'', channel = 2, last_seen = 300, seen_count = 5\<rparr>"

text \<open>
  Networks, all without a step during the waits but the last two. \<open>reliable\<close> delivers
  everything. On \<open>drops_7\<close> every send to connection 7 raises. On \<open>cancelled_at_7\<close> the
  polling task is cancelled while it sends to 7. On \<open>report_at_5\<close> a tag report comes in
  while the send to 5 is awaited, and the send to 7 raises. On \<open>disconnects_7\<close> the
  handler of connection 7 gets its \<open>WebSocketDisconnect\<close> while the send to 5 is awaited,
  and the send to 7 raises. And the globals after two tag reports, with three
  connections open.
\<close>

definition reliable :: "(bool \<times> int) network" where
  "reliable c msg = (None, [])"

definition drops_7 :: "(bool \<times> int) network" where
  "drops_7 c msg = (if c = 7 then Some (OtherError ''connection closed'') else None, [])"

definition cancelled_at_7 :: "(bool \<times> int) network" where
  "cancelled_at_7 c msg = (if c = 7 then Some CancelledError else None, [])"

definition report_at_5 :: "(bool \<times> int) network" where
  "report_at_5 c msg =
     (if c = 7 then Some (OtherError ''connection closed'') else None,
      if c = 5 then [Tag_report [report_e280]] else [])"

definition disconnects_7 :: "(bool \<times> int) network" where
  "disconnects_7 c msg =
     (if c = 7 then Some (OtherError ''connection closed'') else None,
      if c = 5 then [Receive_failed WebSocketDisconnect 7] else [])"

definition two_batches :: "(bool \<times> int) app" where
  "two_batches =
     (tag_report_cbs [[report_e280], [report_e281]] initial)\<lparr>ACTIVE_CONNECTIONS := [5, 7, 9]\<rparr>"

text \<open>
  A session: the reader is set, connection 5 opens and sends a text, a tag report comes
  in, the loop polls. And the globals with connections 5 and 9 open.
\<close>

definition session :: "(bool \<times> int) operation list" where
  "session = [Step (Library_sets (True, 1)), Step (Websocket 5 None [Text ''ping'']),
     Step (Tag_report [report_e280]), Poll reliable]"

definition two_open :: "(bool \<times> int) app" where
  "two_open = initial\<lparr>ACTIVE_CONNECTIONS := [5, 9]\<rparr>"

section \<open>Properties\<close>

subsection \<open>Starting and stopping\<close>

lemma llrp_call_frame:
  "TAG_DATA (snd (llrp_call f c s)) = TAG_DATA s"
  "TAG_QUEUE (snd (llrp_call f c s)) = TAG_QUEUE s"
  "ACTIVE_CONNECTIONS (snd (llrp_call f c s)) = ACTIVE_CONNECTIONS s"
  "ws_sent (snd (llrp_call f c s)) = ws_sent s"
  "LOG (snd (llrp_call f c s)) = LOG s"
  "READER (snd (llrp_call f c s)) = Some (snd (f c))"
  by (simp_all add: llrp_call_def split: prod.splits option.splits)

lemma start_reading_frame:
  "TAG_QUEUE (snd (start_reading lib s)) = TAG_QUEUE s"
  "ACTIVE_CONNECTIONS (snd (start_reading lib s)) = ACTIVE_CONNECTIONS s"
  "ws_sent (snd (start_reading lib s)) = ws_sent s"
  "LOG (snd (start_reading lib s)) = LOG s"
  by (simp_all add: start_reading_def llrp_call_frame clear_tag_data_def split: option.splits)

lemma stop_reading_frame:
  "TAG_DATA (snd (stop_reading lib s)) = TAG_DATA s"
  "TAG_QUEUE (snd (stop_reading lib s)) = TAG_QUEUE s"
  "ACTIVE_CONNECTIONS (snd (stop_reading lib s)) = ACTIVE_CONNECTIONS s"
  "ws_sent (snd (stop_reading lib s)) = ws_sent s"
  "LOG (snd (stop_reading lib s)) = LOG s"
  by (simp_all add: stop_reading_def llrp_call_frame split: option.splits)

lemma start_reading_alive:
  "READER s = Some c \<Longrightarrow> is_alive lib c \<Longrightarrow>
   start_reading lib s = llrp_call (startInventory lib) c (clear_tag_data s)"
  by (simp add: start_reading_def)

lemma start_reading_not_alive:
  "\<not> reader_alive lib s \<Longrightarrow> start_reading lib s = (Inr (), s)"
  by (simp add: start_reading_def reader_alive_def split: option.splits)

lemma stop_reading_not_alive:
  "\<not> reader_alive lib s \<Longrightarrow> stop_reading lib s = (Inr (), s)"
  by (simp add: stop_reading_def reader_alive_def split: option.splits)

lemma start_reading_LOG:
  "start_reading lib (s\<lparr>LOG := l\<rparr>) =
     (fst (start_reading lib s), (snd (start_reading lib s))\<lparr>LOG := l\<rparr>)"
  by (simp add: start_reading_def llrp_call_def clear_tag_data_def
      split: option.splits prod.splits)

lemma stop_reading_LOG:
  "stop_reading lib (s\<lparr>LOG := l\<rparr>) =
     (fst (stop_reading lib s), (snd (stop_reading lib s))\<lparr>LOG := l\<rparr>)"
  by (simp add: stop_reading_def llrp_call_def split: option.splits prod.splits)

lemma start_snd: "snd (start lib s) = snd (start_reading lib s)"
  by (simp add: start_def split: prod.splits sum.splits)

lemma stop_snd: "snd (stop lib s) = snd (stop_reading lib s)"
  by (simp add: stop_def split: prod.splits sum.splits)

lemma start_stop_TAG_DATA:
  "TAG_DATA (snd (start_stop lib s)) = TAG_DATA (snd (start_reading lib s))"
proof (cases "start_reading lib s")
  case (Pair r s1)
  show ?thesis
  proof (cases r)
    case (Inl e)
    with Pair show ?thesis by (simp add: start_stop_def)
  next
    case (Inr u)
    have "TAG_DATA (snd (stop_reading lib s1)) = TAG_DATA s1"
      by (rule stop_reading_frame)
    with Pair Inr show ?thesis
      by (cases "stop_reading lib s1") (auto simp: start_stop_def split: sum.splits)
  qed
qed

lemma same_up_to_LOG:
  "x\<lparr>LOG := l\<rparr> = y \<Longrightarrow> READER x = READER y \<and> TAG_DATA x = TAG_DATA y"
proof -
  assume e: "x\<lparr>LOG := l\<rparr> = y"
  have "READER (x\<lparr>LOG := l\<rparr>) = READER x" and "TAG_DATA (x\<lparr>LOG := l\<rparr>) = TAG_DATA x"
    by simp_all
  then show ?thesis
    unfolding e by simp
qed

subsection \<open>The event callback\<close>

lemma handle_gpi_start:
  "ev_GPIEvent ev = Some g \<Longrightarrow> GPIPortNumber g = Some 1 \<Longrightarrow> GPIEvent g = Some True \<Longrightarrow>
   fst (handle_gpi lib ev s) = fst (start_reading lib s) \<and>
   (snd (handle_gpi lib ev s))\<lparr>LOG := LOG s\<rparr> = snd (start_reading lib s)"
proof (cases "reader_alive lib s")
  case True
  assume "ev_GPIEvent ev = Some g" "GPIPortNumber g = Some 1" "GPIEvent g = Some True"
  moreover have "LOG (snd (start_reading lib s)) = LOG s"
    by (rule start_reading_frame)
  ultimately show ?thesis
    using True
    by (simp add: handle_gpi_def logging_def reader_alive_def start_reading_LOG)
next
  case False
  assume "ev_GPIEvent ev = Some g" "GPIPortNumber g = Some 1" "GPIEvent g = Some True"
  then show ?thesis
    using False start_reading_not_alive [OF False]
    by (simp add: handle_gpi_def logging_def reader_alive_def)
qed


lemma handle_gpi_stop:
  "ev_GPIEvent ev = Some g \<Longrightarrow> GPIPortNumber g = Some 1 \<Longrightarrow> GPIEvent g \<noteq> Some True \<Longrightarrow>
   fst (handle_gpi lib ev s) = fst (stop_reading lib s) \<and>
   (snd (handle_gpi lib ev s))\<lparr>LOG := LOG s\<rparr> = snd (stop_reading lib s)"
proof -
  assume "ev_GPIEvent ev = Some g" "GPIPortNumber g = Some 1" "GPIEvent g \<noteq> Some True"
  moreover have "LOG (snd (stop_reading lib s)) = LOG s"
    by (rule stop_reading_frame)
  ultimately show ?thesis
    by (simp add: handle_gpi_def logging_def stop_reading_LOG)
qed

lemma handle_gpi_other:
  "ev_GPIEvent ev = None \<or> (ev_GPIEvent ev = Some g \<and> GPIPortNumber g \<noteq> Some 1) \<Longrightarrow>
   fst (handle_gpi lib ev s) = Inr () \<and> (snd (handle_gpi lib ev s))\<lparr>LOG := LOG s\<rparr> = s"
  by (auto simp: handle_gpi_def logging_def)

lemma handle_event_of_gpi:
  "fst (handle_event lib ev s) = fst (handle_gpi lib ev s) \<and>
   (snd (handle_event lib ev s))\<lparr>LOG := l\<rparr> = (snd (handle_gpi lib ev s))\<lparr>LOG := l\<rparr>"
  by (cases "handle_gpi lib ev s")
     (auto simp: handle_event_def logging_def split: sum.splits option.splits)

subsection \<open>Claims on starting and stopping\<close>

text \<open>
  Claim C1. Whenever \<open>start_reading\<close> runs with a reader client that exists and is alive,
  it is \<open>startInventory\<close> called on that client in the state that \<open>clear_tag_data\<close> has
  left, where \<open>TAG_DATA\<close> is the empty list; the list is still empty when \<open>start_reading\<close>
  is over, whether or not \<open>startInventory\<close> raised. \<open>GET /start\<close>, \<open>GET /start-stop\<close>
  and the event callback, at a GPI event of port 1 with a true flag, leave \<open>TAG_DATA\<close>
  empty in the same way.
\<close>

theorem start_reading_clears_before_startInventory:
  "READER s = Some c \<Longrightarrow> is_alive lib c \<Longrightarrow>
     start_reading lib s = llrp_call (startInventory lib) c (clear_tag_data s)
   \<and> TAG_DATA (clear_tag_data s) = []
   \<and> READER (clear_tag_data s) = Some c
   \<and> TAG_DATA (snd (start_reading lib s)) = []
   \<and> READER (snd (start_reading lib s)) = Some (snd (startInventory lib c))
   \<and> snd (start lib s) = snd (start_reading lib s)
   \<and> TAG_DATA (snd (start_stop lib s)) = []
   \<and> (ev_GPIEvent ev = Some g \<and> GPIPortNumber g = Some 1 \<and> GPIEvent g = Some True \<longrightarrow>
        TAG_DATA (snd (handle_event lib ev s)) = [] \<and>
        READER (snd (handle_event lib ev s)) = Some (snd (startInventory lib c)))"
proof -
  assume r: "READER s = Some c" and a: "is_alive lib c"
  have eq: "start_reading lib s = llrp_call (startInventory lib) c (clear_tag_data s)"
    using r a by (rule start_reading_alive)
  have t: "TAG_DATA (snd (start_reading lib s)) = []"
    by (simp add: eq llrp_call_frame clear_tag_data_def)
  have rd: "READER (snd (start_reading lib s)) = Some (snd (startInventory lib c))"
    by (simp add: eq llrp_call_frame)
  have ss: "TAG_DATA (snd (start_stop lib s)) = []"
    by (simp add: start_stop_TAG_DATA t)
  have gpi: "TAG_DATA (snd (handle_event lib ev s)) = [] \<and>
      READER (snd (handle_event lib ev s)) = Some (snd (startInventory lib c))"
    if h1: "ev_GPIEvent ev = Some g" and h2: "GPIPortNumber g = Some 1"
      and h3: "GPIEvent g = Some True"
  proof -
    have "(snd (handle_event lib ev s))\<lparr>LOG := LOG s\<rparr> = snd (start_reading lib s)"
      using handle_gpi_start [OF h1 h2 h3, of lib s] handle_event_of_gpi [of lib ev s "LOG s"]
      by simp
    from same_up_to_LOG [OF this] show ?thesis
      using t rd by simp
  qed
  have base: "start_reading lib s = llrp_call (startInventory lib) c (clear_tag_data s)
      \<and> TAG_DATA (clear_tag_data s) = []
      \<and> READER (clear_tag_data s) = Some c"
    using eq r by (simp add: clear_tag_data_def)
  show ?thesis
    using base t rd ss gpi by (simp add: start_snd)
qed

theorem start_reading_clears_witness:
  "READER (connected True) = Some (True, 1) \<and> is_alive example_library (True, 1)
   \<and> TAG_DATA (connected True) = [old_tag]
   \<and> TAG_DATA (snd (start_reading example_library (connected True))) = []
   \<and> READER (snd (start_reading example_library (connected True))) = Some (True, 2)
   \<and> TAG_DATA (snd (handle_event example_library (gpi_port1 True) (connected True))) = []"
proof -
  have h1: "READER (connected True) = Some (True, 1)"
    by (simp add: connected_def initial_def)
  have h2: "is_alive example_library (True, 1)"
    by (simp add: example_library_def)
  note w = start_reading_clears_before_startInventory [OF h1 h2,
      of "gpi_port1 True" "\<lparr>GPIPortNumber = Some 1, GPIEvent = Some True\<rparr>"]
  from w have g: "TAG_DATA (snd (handle_event example_library (gpi_port1 True) (connected True))) = []"
    by (simp add: gpi_port1_def)
  from w have a: "TAG_DATA (snd (start_reading example_library (connected True))) = []"
    by blast
  from w have b: "READER (snd (start_reading example_library (connected True))) =
      Some (snd (startInventory example_library (True, 1)))"
    by blast
  have c: "TAG_DATA (connected True) = [old_tag]"
    by (simp add: connected_def initial_def)
  have k: "snd (startInventory example_library (True, 1)) = (True, 2)"
    by (simp add: example_library_def)
  show ?thesis
    using h1 h2 a b c k g by simp
qed


text \<open>
  Claim C8. When there is no reader client, or \<open>is_alive()\<close> is false, \<open>start_reading\<close>
  and \<open>stop_reading\<close> return with every global as it was, whatever the library is:
  neither \<open>clear_tag_data\<close> nor a call on the client has run. \<open>GET /start\<close> and
  \<open>GET /stop\<close> answer with their usual messages all the same.
\<close>

theorem no_reader_start_stop_noop:
  "\<not> reader_alive lib s \<Longrightarrow>
     start_reading lib s = (Inr (), s)
   \<and> stop_reading lib s = (Inr (), s)
   \<and> start lib s = (Inr (JObj [(''message'', JStr ''Reading started'')]), s)
   \<and> stop lib s = (Inr (JObj [(''message'', JStr ''Reading stopped'')]), s)"
  by (simp add: start_def stop_def start_reading_not_alive stop_reading_not_alive)

theorem no_reader_start_stop_noop_witness:
  "\<not> reader_alive example_library (connected False)
   \<and> start example_library (connected False) =
       (Inr (JObj [(''message'', JStr ''Reading started'')]), connected False)
   \<and> TAG_DATA (snd (start example_library (connected False))) = [old_tag]
   \<and> stop example_library (connected False) =
       (Inr (JObj [(''message'', JStr ''Reading stopped'')]), connected False)"
proof -
  have h: "\<not> reader_alive example_library (connected False)"
    by (simp add: reader_alive_def connected_def initial_def example_library_def)
  note w = no_reader_start_stop_noop [OF h]
  have "TAG_DATA (connected False) = [old_tag]"
    by (simp add: connected_def initial_def)
  with h w show ?thesis by simp
qed

text \<open>
  Claim C9. With \<open>READER\<close> still \<open>None\<close>, \<open>GET /status\<close> and \<open>GET /state\<close> raise
  (\<open>AttributeError\<close>, reading an attribute of \<open>None\<close>) and return nothing, while
  \<open>/start\<close>, \<open>/stop\<close>, \<open>/last-read\<close> and \<open>/clear\<close> return their responses.
\<close>

theorem status_state_raise_without_reader:
  "READER s = None \<Longrightarrow>
     status lib s = (Inl AttributeError, s)
   \<and> is_reading lib s = (Inl AttributeError, s)
   \<and> start lib s = (Inr (JObj [(''message'', JStr ''Reading started'')]), s)
   \<and> stop lib s = (Inr (JObj [(''message'', JStr ''Reading stopped'')]), s)
   \<and> get_tags s = (Inr (JObj [(''tags'', JArr (map model_dump (TAG_DATA s)))]), s)
   \<and> clear s = (Inr (JObj [(''message'', JStr ''Tag data cleared'')]), s\<lparr>TAG_DATA := []\<rparr>)"
  by (simp add: status_def is_reading_def start_def stop_def get_tags_def clear_def
      start_reading_def stop_reading_def clear_tag_data_def)

theorem status_state_raise_without_reader_witness:
  "READER (initial :: (bool \<times> int) app) = None
   \<and> fst (status example_library initial) = Inl AttributeError
   \<and> fst (is_reading example_library initial) = Inl AttributeError
   \<and> fst (start example_library initial) = Inr (JObj [(''message'', JStr ''Reading started'')])
   \<and> fst (get_tags (initial :: (bool \<times> int) app)) = Inr (JObj [(''tags'', JArr [])])"
proof -
  have h: "READER (initial :: (bool \<times> int) app) = None"
    by (simp add: initial_def)
  note w = status_state_raise_without_reader [OF h, of example_library]
  have "TAG_DATA (initial :: (bool \<times> int) app) = []"
    by (simp add: initial_def)
  with h w show ?thesis by simp
qed

subsection \<open>Claim on \<open>GET /state\<close>\<close>

text \<open>
  Claim C6 says that every \<open>GET /state\<close> returns the object with the state name and the
  state code. Not in the module as imported, where \<open>READER\<close> is \<open>None\<close>: the handler raises.
\<close>

theorem state_not_always_returned:
  "fst (is_reading example_library (initial :: (bool \<times> int) app)) = Inl AttributeError"
  by (simp add: is_reading_def initial_def)

text \<open>
  Claim C6, amended. A \<open>GET /state\<close> made while \<open>READER\<close> holds a client, whose
  \<open>llrp.state\<close> is read as \<open>code\<close> and to which \<open>getStateName\<close> gives \<open>name\<close>, returns the
  object with \<open>"state"\<close> at \<open>name\<close> and \<open>"code"\<close> at \<open>code\<close>, and changes nothing.
\<close>

theorem state_reflects_client:
  "READER s = Some c \<Longrightarrow> llrp_state lib c = Inr code \<Longrightarrow> getStateName lib code = Inr name \<Longrightarrow>
   is_reading lib s = (Inr (JObj [(''state'', JStr name), (''code'', JInt code)]), s)"
  by (simp add: is_reading_def)

theorem state_reflects_client_witness:
  "READER (connected True) = Some (True, 1)
   \<and> llrp_state example_library (True, 1) = Inr 1
   \<and> getStateName example_library 1 = Inr ''STATE_CONNECTED''
   \<and> is_reading example_library (connected True) =
       (Inr (JObj [(''state'', JStr ''STATE_CONNECTED''), (''code'', JInt 1)]), connected True)"
proof -
  have h1: "READER (connected True) = Some (True, 1)"
    by (simp add: connected_def initial_def)
  have h2: "llrp_state example_library (True, 1) = Inr 1"
    by (simp add: example_library_def)
  have h3: "getStateName example_library 1 = Inr ''STATE_CONNECTED''"
    by (simp add: example_library_def)
  show ?thesis
    using h1 h2 h3 state_reflects_client [OF h1 h2 h3] by simp
qed

subsection \<open>Claim on the event callback\<close>

text \<open>
  Claim C10. For an event whose \<open>GPIEvent\<close> has \<open>GPIPortNumber\<close> 1: with a true flag,
  \<open>handle_event\<close> is \<open>start_reading\<close> (same outcome, same globals, the log apart), so that
  with an alive reader \<open>TAG_DATA\<close> ends empty; with a flag that is not true, it is
  \<open>stop_reading\<close>. For an event without \<open>GPIEvent\<close>, or whose port number is not 1,
  \<open>handle_event\<close> returns and changes nothing but the log: \<open>TAG_DATA\<close> and the reader
  client are as they were.
\<close>

theorem handle_event_gpi:
  "(ev_GPIEvent ev = Some g \<and> GPIPortNumber g = Some 1 \<and> GPIEvent g = Some True \<longrightarrow>
      fst (handle_event lib ev s) = fst (start_reading lib s) \<and>
      (snd (handle_event lib ev s))\<lparr>LOG := LOG s\<rparr> = snd (start_reading lib s) \<and>
      (reader_alive lib s \<longrightarrow> TAG_DATA (snd (handle_event lib ev s)) = []))
   \<and> (ev_GPIEvent ev = Some g \<and> GPIPortNumber g = Some 1 \<and> GPIEvent g \<noteq> Some True \<longrightarrow>
      fst (handle_event lib ev s) = fst (stop_reading lib s) \<and>
      (snd (handle_event lib ev s))\<lparr>LOG := LOG s\<rparr> = snd (stop_reading lib s))
   \<and> (ev_GPIEvent ev = None \<or> (ev_GPIEvent ev = Some g \<and> GPIPortNumber g \<noteq> Some 1) \<longrightarrow>
      fst (handle_event lib ev s) = Inr () \<and>
      (snd (handle_event lib ev s))\<lparr>LOG := LOG s\<rparr> = s)"
proof (intro conjI impI)
  assume h: "ev_GPIEvent ev = Some g \<and> GPIPortNumber g = Some 1 \<and> GPIEvent g = Some True"
  then have h1: "ev_GPIEvent ev = Some g" and h2: "GPIPortNumber g = Some 1"
    and h3: "GPIEvent g = Some True"
    by simp_all
  note g = handle_gpi_start [OF h1 h2 h3, of lib s]
  show "fst (handle_event lib ev s) = fst (start_reading lib s)"
    using g handle_event_of_gpi [of lib ev s] by simp
  show e: "(snd (handle_event lib ev s))\<lparr>LOG := LOG s\<rparr> = snd (start_reading lib s)"
    using g handle_event_of_gpi [of lib ev s "LOG s"] by simp
  assume "reader_alive lib s"
  then obtain c where "READER s = Some c" "is_alive lib c"
    by (auto simp: reader_alive_def split: option.splits)
  then have "TAG_DATA (snd (start_reading lib s)) = []"
    by (simp add: start_reading_alive llrp_call_frame clear_tag_data_def)
  moreover have "TAG_DATA (snd (handle_event lib ev s)) =
      TAG_DATA ((snd (handle_event lib ev s))\<lparr>LOG := LOG s\<rparr>)"
    by simp
  ultimately show "TAG_DATA (snd (handle_event lib ev s)) = []"
    using e by simp
next
  assume h: "ev_GPIEvent ev = Some g \<and> GPIPortNumber g = Some 1 \<and> GPIEvent g \<noteq> Some True"
  then have h1: "ev_GPIEvent ev = Some g" and h2: "GPIPortNumber g = Some 1"
    and h3: "GPIEvent g \<noteq> Some True"
    by simp_all
  note g = handle_gpi_stop [OF h1 h2 h3, of lib s]
  show "fst (handle_event lib ev s) = fst (stop_reading lib s)"
    using g handle_event_of_gpi [of lib ev s] by simp
  show "(snd (handle_event lib ev s))\<lparr>LOG := LOG s\<rparr> = snd (stop_reading lib s)"
    using g handle_event_of_gpi [of lib ev s "LOG s"] by simp
next
  assume h: "ev_GPIEvent ev = None \<or> (ev_GPIEvent ev = Some g \<and> GPIPortNumber g \<noteq> Some 1)"
  note g = handle_gpi_other [OF h, of lib s]
  show "fst (handle_event lib ev s) = Inr ()"
    using g handle_event_of_gpi [of lib ev s] by simp
  show "(snd (handle_event lib ev s))\<lparr>LOG := LOG s\<rparr> = s"
    using g handle_event_of_gpi [of lib ev s "LOG s"] by simp
qed



theorem handle_event_gpi_witness:
  "TAG_DATA (connected True) = [old_tag] \<and> READER (connected True) = Some (True, 1)
   \<and> TAG_DATA (snd (handle_event example_library (gpi_port1 True) (connected True))) = []
   \<and> READER (snd (handle_event example_library (gpi_port1 True) (connected True))) = Some (True, 2)
   \<and> TAG_DATA (snd (handle_event example_library (gpi_port1 False) (connected True))) = [old_tag]
   \<and> READER (snd (handle_event example_library (gpi_port1 False) (connected True))) = Some (True, 3)
   \<and> (snd (handle_event example_library gpi_port2 (connected True)))
        \<lparr>LOG := LOG (connected True)\<rparr> = connected True"
proof -
  let ?g1 = "\<lparr>GPIPortNumber = Some 1, GPIEvent = Some True\<rparr>"
  let ?g0 = "\<lparr>GPIPortNumber = Some 1, GPIEvent = Some False\<rparr>"
  let ?g2 = "\<lparr>GPIPortNumber = Some 2, GPIEvent = Some True\<rparr>"
  let ?s = "connected True"
  have c: "TAG_DATA ?s = [old_tag]" "READER ?s = Some (True, 1)"
    by (simp_all add: connected_def initial_def)
  have s1: "READER (snd (start_reading example_library ?s)) = Some (True, 2)"
    by (simp add: start_reading_def llrp_call_def clear_tag_data_def connected_def initial_def
        example_library_def)
  have s0: "snd (stop_reading example_library ?s) = ?s\<lparr>READER := Some (True, 3)\<rparr>"
    by (simp add: stop_reading_def llrp_call_def connected_def initial_def example_library_def)
  have a: "reader_alive example_library ?s"
    by (simp add: reader_alive_def connected_def initial_def example_library_def)
  have t: "(snd (handle_event example_library (gpi_port1 True) ?s))\<lparr>LOG := LOG ?s\<rparr> =
      snd (start_reading example_library ?s)"
    and t': "TAG_DATA (snd (handle_event example_library (gpi_port1 True) ?s)) = []"
    using handle_event_gpi [of "gpi_port1 True" ?g1 example_library ?s] a
    by (simp_all add: gpi_port1_def)
  have f: "(snd (handle_event example_library (gpi_port1 False) ?s))\<lparr>LOG := LOG ?s\<rparr> =
      snd (stop_reading example_library ?s)"
    using handle_event_gpi [of "gpi_port1 False" ?g0 example_library ?s]
    by (simp add: gpi_port1_def)
  have o: "(snd (handle_event example_library gpi_port2 ?s))\<lparr>LOG := LOG ?s\<rparr> = ?s"
    using handle_event_gpi [of gpi_port2 ?g2 example_library ?s]
    by (simp add: gpi_port2_def)
  have r1: "READER (snd (handle_event example_library (gpi_port1 True) ?s)) = Some (True, 2)"
    using same_up_to_LOG [OF t] s1 by simp
  have r0: "READER (snd (handle_event example_library (gpi_port1 False) ?s)) = Some (True, 3)"
    and d0: "TAG_DATA (snd (handle_event example_library (gpi_port1 False) ?s)) = [old_tag]"
    using same_up_to_LOG [OF f] c by (simp_all add: s0)
  show ?thesis
    using c t' r1 r0 d0 o by simp
qed


subsection \<open>Claim on the tag-report callback\<close>

lemma decode_e280: "decode_ascii [0x65, 0x32, 0x38, 0x30] = Inr ''e280''"
  by code_simp

lemma decode_e281: "decode_ascii [0x65, 0x32, 0x38, 0x31] = Inr ''e281''"
  by code_simp

lemma decode_ff: "decode_ascii [0xFF] = Inl UnicodeDecodeError"
  by (simp add: decode_ascii_def)

lemma tag_records_e280: "tag_records [report_e280] = Inr [old_tag]"
  by (simp add: make_RFIDTag_def report_e280_def decode_e280 old_tag_def)

lemma tag_records_e281: "tag_records [report_e281] = Inr [new_tag]"
  by (simp add: make_RFIDTag_def report_e281_def decode_e281 new_tag_def)

lemma tag_records_ff: "tag_records [report_ff] = Inl UnicodeDecodeError"
  by (simp add: make_RFIDTag_def report_ff_def decode_ff)

lemma tag_records_translated:
  "tag_records batch = Inr recs \<Longrightarrow> list_all2 translated batch recs"
proof (induction batch arbitrary: recs)
  case Nil
  then show ?case by simp
next
  case (Cons t ts)
  from Cons.prems obtain r rs where r: "make_RFIDTag t = Inr r" and rs: "tag_records ts = Inr rs"
    and recs: "recs = r # rs"
    by (auto split: sum.splits)
  have "translated t r"
    using r by (auto simp: make_RFIDTag_def translated_def split: option.splits sum.splits)
  with Cons.IH [OF rs] recs show ?case by simp
qed

lemma tag_report_cb_ok:
  "tag_records batch = Inr recs \<Longrightarrow>
   tag_report_cb batch s =
     (Inr (), s\<lparr>TAG_DATA := recs, TAG_QUEUE := TAG_QUEUE s @ [JArr (map model_dump recs)],
                LOG := LOG s @ [Info_Received_tags (length batch)]\<rparr>)"
  by (simp add: tag_report_cb_def logging_def)

lemma tag_report_cb_raises:
  "tag_records batch = Inl e \<Longrightarrow> tag_report_cb batch s = (Inl e, s)"
  by (simp add: tag_report_cb_def)

lemma tag_report_cbs_append:
  "tag_report_cbs (xs @ ys) s = tag_report_cbs ys (tag_report_cbs xs s)"
  by (induction xs arbitrary: s) simp_all

lemma make_RFIDTag_raises: "isl (make_RFIDTag t) = (\<not> well_formed t)"
  by (simp add: make_RFIDTag_def well_formed_def decode_ascii_def split: option.splits)

lemma tag_records_raises: "isl (tag_records batch) = (\<not> list_all well_formed batch)"
proof (induction batch)
  case Nil
  show ?case by simp
next
  case (Cons t ts)
  show ?case
    using Cons.IH make_RFIDTag_raises [of t]
    by (cases "make_RFIDTag t"; cases "tag_records ts") simp_all
qed

lemma translated_unique: "translated t r \<Longrightarrow> translated t r' \<Longrightarrow> r = r'"
  by (cases r, cases r') (auto simp: translated_def split: option.splits)

lemma list_all2_translated_unique:
  "list_all2 translated batch recs \<Longrightarrow> list_all2 translated batch recs' \<Longrightarrow> recs = recs'"
proof (induction batch arbitrary: recs recs')
  case Nil
  then show ?case by simp
next
  case (Cons t ts)
  from Cons.prems obtain r rs r' rs' where "recs = r # rs" "recs' = r' # rs'"
    "translated t r" "translated t r'" "list_all2 translated ts rs" "list_all2 translated ts rs'"
    by (auto simp: list_all2_Cons1)
  then show ?case
    using Cons.IH [of rs rs'] translated_unique [of t r r'] by simp
qed

text \<open>
  Claim C3 says that after every invocation of the callback \<open>TAG_DATA\<close> holds the records
  of that batch and nothing of an earlier one. Not when the translation raises: after a
  batch with \<open>EPC\<close> \<open>e280\<close> and then a batch whose \<open>EPC\<close> is not ASCII, the second
  invocation raises \<open>UnicodeDecodeError\<close> and \<open>TAG_DATA\<close> still holds the record of the
  first batch.
\<close>

theorem tag_data_retains_earlier_batch:
  "fst (tag_report_cb [report_ff] (snd (tag_report_cb [report_e280] (initial :: unit app))))
     = Inl UnicodeDecodeError
   \<and> TAG_DATA (snd (tag_report_cb [report_ff] (snd (tag_report_cb [report_e280] (initial :: unit app)))))
     = [old_tag]"
  by (simp add: tag_report_cb_ok [OF tag_records_e280] tag_report_cb_raises [OF tag_records_ff])

text \<open>
  Claim C3, amended. A batch is well formed when every report has the four keys and an
  ASCII \<open>EPC\<close>. After every invocation of the callback with a well-formed batch,
  \<open>TAG_DATA\<close> is exactly the list of the records translated from that batch, one per
  report and in the order of the reports (the \<open>epc\<close> decoded from the bytes at \<open>EPC\<close>,
  then channel, last-seen time and seen count): no other list is a translation of the
  batch. The same list, serialized, has been put on the queue. This holds after every
  sequence of invocations that ends with such a batch, whatever the earlier ones were.
  An invocation with a batch that is not well formed raises and leaves every global as
  it was.
\<close>

theorem tag_data_is_last_batch:
  "(list_all well_formed batch \<longrightarrow>
       fst (tag_report_cb batch s) = Inr ()
     \<and> list_all2 translated batch (TAG_DATA (snd (tag_report_cb batch s)))
     \<and> (\<forall>recs. list_all2 translated batch recs \<longrightarrow>
           TAG_DATA (snd (tag_report_cb batch s)) = recs)
     \<and> TAG_DATA (tag_report_cbs (earlier @ [batch]) s) = TAG_DATA (snd (tag_report_cb batch s))
     \<and> TAG_QUEUE (snd (tag_report_cb batch s)) =
         TAG_QUEUE s @ [JArr (map model_dump (TAG_DATA (snd (tag_report_cb batch s))))])
   \<and> (\<not> list_all well_formed batch \<longrightarrow>
       isl (fst (tag_report_cb batch s)) \<and> snd (tag_report_cb batch s) = s)"
proof (intro conjI impI)
  assume "\<not> list_all well_formed batch"
  then obtain e where e: "tag_records batch = Inl e"
    using tag_records_raises [of batch] by (cases "tag_records batch") simp_all
  show "isl (fst (tag_report_cb batch s))" and "snd (tag_report_cb batch s) = s"
    by (simp_all add: tag_report_cb_raises [OF e])
next
  assume "list_all well_formed batch"
  then obtain recs where r: "tag_records batch = Inr recs"
    using tag_records_raises [of batch] by (cases "tag_records batch") simp_all
  note ok = tag_report_cb_ok [OF r]
  have tr: "list_all2 translated batch recs"
    using r by (rule tag_records_translated)
  show "fst (tag_report_cb batch s) = Inr ()"
    by (simp add: ok)
  show "list_all2 translated batch (TAG_DATA (snd (tag_report_cb batch s)))"
    using tr by (simp add: ok)
  show "\<forall>recs. list_all2 translated batch recs \<longrightarrow> TAG_DATA (snd (tag_report_cb batch s)) = recs"
    using list_all2_translated_unique [OF tr] by (simp add: ok)
  show "TAG_DATA (tag_report_cbs (earlier @ [batch]) s) = TAG_DATA (snd (tag_report_cb batch s))"
    by (simp add: tag_report_cbs_append ok)
  show "TAG_QUEUE (snd (tag_report_cb batch s)) =
      TAG_QUEUE s @ [JArr (map model_dump (TAG_DATA (snd (tag_report_cb batch s))))]"
    by (simp add: ok)
qed

theorem tag_data_is_last_batch_witness:
  "list_all well_formed [report_e281]
   \<and> TAG_DATA (tag_report_cbs ([[report_e280], [report_ff]] @ [[report_e281]]) (initial :: unit app))
       = [new_tag]
   \<and> \<not> list_all well_formed [report_ff]
   \<and> snd (tag_report_cb [report_ff] (snd (tag_report_cb [report_e280] (initial :: unit app))))
       = snd (tag_report_cb [report_e280] (initial :: unit app))"
proof -
  have h1: "list_all well_formed [report_e281]"
    by (simp add: well_formed_def report_e281_def)
  have h2: "\<not> list_all well_formed [report_ff]"
    by (simp add: well_formed_def report_ff_def)
  have t: "TAG_DATA (snd (tag_report_cb [report_e281] (initial :: unit app))) = [new_tag]"
    by (simp add: tag_report_cb_ok [OF tag_records_e281])
  note a = tag_data_is_last_batch [where batch = "[report_e281]" and s = "initial :: unit app"
      and earlier = "[[report_e280], [report_ff]]"]
  note b = tag_data_is_last_batch [where batch = "[report_ff]"
      and s = "snd (tag_report_cb [report_e280] (initial :: unit app))"
      and earlier = "[]"]
  from a h1 t have 1: "TAG_DATA (tag_report_cbs ([[report_e280], [report_ff]] @ [[report_e281]])
      (initial :: unit app)) = [new_tag]"
    by simp
  from b h2 have 2: "snd (tag_report_cb [report_ff] (snd (tag_report_cb [report_e280] (initial :: unit app))))
      = snd (tag_report_cb [report_e280] (initial :: unit app))"
    by simp
  show ?thesis
    using h1 h2 1 2 by simp
qed

subsection \<open>What the steps leave alone\<close>

text \<open>
  No step sends on a WebSocket; a step takes nothing from the queue; a step that is
  not of the WebSocket endpoint leaves \<open>ACTIVE_CONNECTIONS\<close> as it is; and what a step
  puts on the queue is a list of serialized tags.
\<close>

lemma is_tag_dump_model_dump: "is_tag_dump (model_dump r)"
  by (simp add: is_tag_dump_def model_dump_def)

lemma is_tag_list_dump: "is_tag_list (JArr (map model_dump recs))"
  by (simp add: is_tag_list_def list_all_iff is_tag_dump_model_dump)

lemma is_tags_message_iff: "is_tags_message (JObj [(''tags'', v)]) = is_tag_list v"
  by (simp add: is_tags_message_def)

lemma start_stop_frame:
  "TAG_QUEUE (snd (start_stop lib s)) = TAG_QUEUE s"
  "ws_sent (snd (start_stop lib s)) = ws_sent s"
  "ACTIVE_CONNECTIONS (snd (start_stop lib s)) = ACTIVE_CONNECTIONS s"
proof -
  obtain r s1 where a: "start_reading lib s = (r, s1)"
    by (cases "start_reading lib s")
  obtain r' s2 where b: "stop_reading lib s1 = (r', s2)"
    by (cases "stop_reading lib s1")
  have 1: "TAG_QUEUE s1 = TAG_QUEUE s" "ws_sent s1 = ws_sent s"
    "ACTIVE_CONNECTIONS s1 = ACTIVE_CONNECTIONS s"
    using start_reading_frame [of lib s] a by simp_all
  have 2: "TAG_QUEUE s2 = TAG_QUEUE s1" "ws_sent s2 = ws_sent s1"
    "ACTIVE_CONNECTIONS s2 = ACTIVE_CONNECTIONS s1"
    using stop_reading_frame [of lib s1] b by simp_all
  show "TAG_QUEUE (snd (start_stop lib s)) = TAG_QUEUE s"
    using a b 1 2 by (simp add: start_stop_def split: sum.splits)
  show "ws_sent (snd (start_stop lib s)) = ws_sent s"
    using a b 1 2 by (simp add: start_stop_def split: sum.splits)
  show "ACTIVE_CONNECTIONS (snd (start_stop lib s)) = ACTIVE_CONNECTIONS s"
    using a b 1 2 by (simp add: start_stop_def split: sum.splits)
qed

lemma handle_gpi_frame:
  "TAG_QUEUE (snd (handle_gpi lib ev s)) = TAG_QUEUE s"
  "ws_sent (snd (handle_gpi lib ev s)) = ws_sent s"
  "ACTIVE_CONNECTIONS (snd (handle_gpi lib ev s)) = ACTIVE_CONNECTIONS s"
  by (simp_all add: handle_gpi_def Let_def logging_def start_reading_frame stop_reading_frame
      split: option.splits)

lemma handle_event_frame:
  "TAG_QUEUE (snd (handle_event lib ev s)) = TAG_QUEUE s"
  "ws_sent (snd (handle_event lib ev s)) = ws_sent s"
  "ACTIVE_CONNECTIONS (snd (handle_event lib ev s)) = ACTIVE_CONNECTIONS s"
proof -
  obtain r s1 where a: "handle_gpi lib ev s = (r, s1)"
    by (cases "handle_gpi lib ev s")
  have 1: "TAG_QUEUE s1 = TAG_QUEUE s" "ws_sent s1 = ws_sent s"
    "ACTIVE_CONNECTIONS s1 = ACTIVE_CONNECTIONS s"
    using handle_gpi_frame [of lib ev s] a by simp_all
  show "TAG_QUEUE (snd (handle_event lib ev s)) = TAG_QUEUE s"
    using a 1 by (simp add: handle_event_def logging_def split: sum.splits option.splits)
  show "ws_sent (snd (handle_event lib ev s)) = ws_sent s"
    using a 1 by (simp add: handle_event_def logging_def split: sum.splits option.splits)
  show "ACTIVE_CONNECTIONS (snd (handle_event lib ev s)) = ACTIVE_CONNECTIONS s"
    using a 1 by (simp add: handle_event_def logging_def split: sum.splits option.splits)
qed

lemma receive_failed_frame:
  "READER (snd (receive_failed e c s)) = READER s"
  "TAG_DATA (snd (receive_failed e c s)) = TAG_DATA s"
  "TAG_QUEUE (snd (receive_failed e c s)) = TAG_QUEUE s"
  "ws_sent (snd (receive_failed e c s)) = ws_sent s"
  by (simp_all add: receive_failed_def Let_def logging_def list_remove_def)

lemma websocket_endpoint_frame:
  "READER (snd (websocket_endpoint c a evs s)) = READER s"
  "TAG_DATA (snd (websocket_endpoint c a evs s)) = TAG_DATA s"
  "TAG_QUEUE (snd (websocket_endpoint c a evs s)) = TAG_QUEUE s"
  "ws_sent (snd (websocket_endpoint c a evs s)) = ws_sent s"
  by (simp_all add: websocket_endpoint_def Let_def logging_def receive_failed_frame
      case_prod_beta split: option.splits)

lemma tag_report_cb_queue:
  "\<exists>added. TAG_QUEUE (snd (tag_report_cb batch s)) = TAG_QUEUE s @ added"
  by (cases "tag_records batch") (simp_all add: tag_report_cb_raises tag_report_cb_ok)

lemma tag_report_cb_frame:
  "ws_sent (snd (tag_report_cb batch s)) = ws_sent s"
  "ACTIVE_CONNECTIONS (snd (tag_report_cb batch s)) = ACTIVE_CONNECTIONS s"
  by (cases "tag_records batch"; simp add: tag_report_cb_raises tag_report_cb_ok)+

lemma do_step_ws_sent: "ws_sent (do_step lib st s) = ws_sent s"
  by (cases st)
     (simp_all add: tag_report_cb_frame handle_event_frame start_snd stop_snd
       start_reading_frame stop_reading_frame start_stop_frame get_tags_def status_def
       is_reading_def clear_def clear_tag_data_def websocket_endpoint_frame receive_failed_frame
       split: option.splits sum.splits)

lemma run_steps_ws_sent: "ws_sent (run_steps lib sts s) = ws_sent s"
  by (induction sts arbitrary: s) (simp_all add: do_step_ws_sent)

lemma do_step_queue: "\<exists>added. TAG_QUEUE (do_step lib st s) = TAG_QUEUE s @ added"
  by (cases st)
     (simp_all add: tag_report_cb_queue handle_event_frame start_snd stop_snd
       start_reading_frame stop_reading_frame start_stop_frame get_tags_def status_def
       is_reading_def clear_def clear_tag_data_def websocket_endpoint_frame receive_failed_frame
       split: option.splits sum.splits)

lemma run_steps_queue: "\<exists>added. TAG_QUEUE (run_steps lib sts s) = TAG_QUEUE s @ added"
proof (induction sts arbitrary: s)
  case Nil
  show ?case by simp
next
  case (Cons st sts)
  obtain a where a: "TAG_QUEUE (do_step lib st s) = TAG_QUEUE s @ a"
    using do_step_queue [of lib st s] by blast
  obtain b where "TAG_QUEUE (run_steps lib sts (do_step lib st s)) = TAG_QUEUE (do_step lib st s) @ b"
    using Cons.IH [of "do_step lib st s"] by blast
  with a show ?case by simp
qed

lemma do_step_keeps:
  "keeps_connections st \<Longrightarrow> ACTIVE_CONNECTIONS (do_step lib st s) = ACTIVE_CONNECTIONS s"
  by (cases st)
     (simp_all add: keeps_connections_def tag_report_cb_frame handle_event_frame start_snd
       stop_snd start_reading_frame stop_reading_frame start_stop_frame get_tags_def status_def
       is_reading_def clear_def clear_tag_data_def split: option.splits sum.splits)

lemma run_steps_keeps:
  "list_all keeps_connections sts \<Longrightarrow>
   ACTIVE_CONNECTIONS (run_steps lib sts s) = ACTIVE_CONNECTIONS s"
  by (induction sts arbitrary: s) (simp_all add: do_step_keeps)

lemma tag_report_cb_wire_ok: "wire_ok s \<Longrightarrow> wire_ok (snd (tag_report_cb batch s))"
proof (cases "tag_records batch")
  case (Inl e)
  assume "wire_ok s"
  then show ?thesis by (simp add: tag_report_cb_raises [OF Inl])
next
  case (Inr recs)
  assume "wire_ok s"
  then show ?thesis
    by (simp add: tag_report_cb_ok [OF Inr] wire_ok_def is_tag_list_dump)
qed

lemma do_step_wire_ok: "wire_ok s \<Longrightarrow> wire_ok (do_step lib st s)"
proof (cases st)
  case (Tag_report batch)
  assume "wire_ok s"
  then show ?thesis using Tag_report by (simp add: tag_report_cb_wire_ok)
next
  case (Library_sets c)
  assume "wire_ok s"
  then show ?thesis using Library_sets by (simp add: wire_ok_def)
next
  case (Event ev)
  assume "wire_ok s"
  then show ?thesis using Event by (simp add: wire_ok_def handle_event_frame)
next
  case Get_start
  assume "wire_ok s"
  then show ?thesis using Get_start by (simp add: wire_ok_def start_snd start_reading_frame)
next
  case Get_stop
  assume "wire_ok s"
  then show ?thesis using Get_stop by (simp add: wire_ok_def stop_snd stop_reading_frame)
next
  case Get_start_stop
  assume "wire_ok s"
  then show ?thesis using Get_start_stop by (simp add: wire_ok_def start_stop_frame)
next
  case Get_last_read
  assume "wire_ok s"
  then show ?thesis using Get_last_read by (simp add: get_tags_def)
next
  case Get_status
  assume "wire_ok s"
  then show ?thesis using Get_status by (simp add: status_def split: option.splits)
next
  case Get_state
  assume "wire_ok s"
  then show ?thesis using Get_state
    by (simp add: is_reading_def split: option.splits sum.splits)
next
  case Get_clear
  assume "wire_ok s"
  then show ?thesis using Get_clear by (simp add: clear_def clear_tag_data_def wire_ok_def)
next
  case (Websocket c a evs)
  assume "wire_ok s"
  then show ?thesis using Websocket by (simp add: wire_ok_def websocket_endpoint_frame)
next
  case (Receive_failed e c)
  assume "wire_ok s"
  then show ?thesis using Receive_failed by (simp add: wire_ok_def receive_failed_frame)
qed

lemma run_steps_wire_ok: "wire_ok s \<Longrightarrow> wire_ok (run_steps lib sts s)"
  by (induction sts arbitrary: s) (simp_all add: do_step_wire_ok)

subsection \<open>Claims on the polling loop\<close>

text \<open>
  The four ways the \<open>for\<close> loop goes on from a connection: the send is delivered; it
  raises and the connection is still in \<open>ACTIVE_CONNECTIONS\<close>; it raises and the
  connection is no longer there, so that \<open>remove\<close> raises \<open>ValueError\<close>; the task is
  cancelled.
\<close>

lemma list_remove_boundary:
  "c \<notin> set pre \<Longrightarrow> list_remove c (pre @ c # cs) = Inr (pre @ cs)"
  by (simp add: list_remove_def remove1_append)

lemma send_to_all_delivered:
  "fst (net c msg) = None \<Longrightarrow>
   send_to_all lib net msg (c # cs) s =
     send_to_all lib net msg cs
       ((run_steps lib (snd (net c msg)) s)
          \<lparr>ws_sent := ws_sent (run_steps lib (snd (net c msg)) s) @ [(c, msg)],
           LOG := LOG (run_steps lib (snd (net c msg)) s) @ [Info_Sent_tags]\<rparr>)"
  by (simp add: Let_def logging_def)

lemma send_to_all_failed:
  "fst (net c msg) = Some e \<Longrightarrow> is_Exception e \<Longrightarrow>
   c \<in> set (ACTIVE_CONNECTIONS (run_steps lib (snd (net c msg)) s)) \<Longrightarrow>
   send_to_all lib net msg (c # cs) s =
     send_to_all lib net msg cs
       ((run_steps lib (snd (net c msg)) s)
          \<lparr>LOG := LOG (run_steps lib (snd (net c msg)) s) @ [Error_sending e],
           ACTIVE_CONNECTIONS := remove1 c (ACTIVE_CONNECTIONS (run_steps lib (snd (net c msg)) s))\<rparr>)"
  by (simp add: Let_def logging_def list_remove_def)

lemma send_to_all_unregistered:
  "fst (net c msg) = Some e \<Longrightarrow> is_Exception e \<Longrightarrow>
   c \<notin> set (ACTIVE_CONNECTIONS (run_steps lib (snd (net c msg)) s)) \<Longrightarrow>
   send_to_all lib net msg (c # cs) s =
     (Inl ValueError,
      (run_steps lib (snd (net c msg)) s)
         \<lparr>LOG := LOG (run_steps lib (snd (net c msg)) s) @ [Error_sending e]\<rparr>)"
  by (simp add: Let_def logging_def list_remove_def)

lemma send_to_all_cancelled:
  "fst (net c msg) = Some e \<Longrightarrow> \<not> is_Exception e \<Longrightarrow>
   send_to_all lib net msg (c # cs) s = (Inl e, run_steps lib (snd (net c msg)) s)"
  by (simp add: Let_def)

declare send_to_all.simps(2) [simp del]

lemma send_to_all_cases:
  obtains (delivered) "fst (net c msg) = None"
  | (failed) e where "fst (net c msg) = Some e" "is_Exception e"
      "c \<in> set (ACTIVE_CONNECTIONS (run_steps lib (snd (net c msg)) s))"
  | (unregistered) e where "fst (net c msg) = Some e" "is_Exception e"
      "c \<notin> set (ACTIVE_CONNECTIONS (run_steps lib (snd (net c msg)) s))"
  | (cancelled) e where "fst (net c msg) = Some e" "\<not> is_Exception e"
  by (cases "fst (net c msg)") auto

lemma send_to_all_queue:
  "\<exists>added. TAG_QUEUE (snd (send_to_all lib net msg cs s)) = TAG_QUEUE s @ added"
proof (induction cs arbitrary: s)
  case Nil
  show ?case by simp
next
  case (Cons c cs)
  let ?s' = "run_steps lib (snd (net c msg)) s"
  obtain a where a: "TAG_QUEUE ?s' = TAG_QUEUE s @ a"
    using run_steps_queue [of lib "snd (net c msg)" s] by blast
  show ?case
  proof (cases rule: send_to_all_cases [where net = net and c = c and msg = msg and lib = lib and s = s])
    case delivered
    let ?t = "?s'\<lparr>ws_sent := ws_sent ?s' @ [(c, msg)], LOG := LOG ?s' @ [Info_Sent_tags]\<rparr>"
    obtain b where "TAG_QUEUE (snd (send_to_all lib net msg cs ?t)) = TAG_QUEUE ?t @ b"
      using Cons.IH [of ?t] by blast
    then show ?thesis
      using a by (simp add: send_to_all_delivered [where net = net and c = c and msg = msg, OF delivered])
  next
    case (failed e)
    let ?t = "?s'\<lparr>LOG := LOG ?s' @ [Error_sending e],
      ACTIVE_CONNECTIONS := remove1 c (ACTIVE_CONNECTIONS ?s')\<rparr>"
    obtain b where "TAG_QUEUE (snd (send_to_all lib net msg cs ?t)) = TAG_QUEUE ?t @ b"
      using Cons.IH [of ?t] by blast
    then show ?thesis
      using a by (simp add: send_to_all_failed [where net = net and c = c and msg = msg, OF failed])
  next
    case (unregistered e)
    show ?thesis
      using a by (simp add: send_to_all_unregistered [where net = net and c = c and msg = msg, OF unregistered])
  next
    case (cancelled e)
    show ?thesis
      using a by (simp add: send_to_all_cancelled [where net = net and c = c and msg = msg, OF cancelled])
  qed
qed

lemma send_to_all_served:
  "\<exists>served. set served \<subseteq> set cs \<and>
     ws_sent (snd (send_to_all lib net msg cs s)) = ws_sent s @ map (\<lambda>c. (c, msg)) served"
proof (induction cs arbitrary: s)
  case Nil
  show ?case by simp
next
  case (Cons c cs)
  let ?s' = "run_steps lib (snd (net c msg)) s"
  have w: "ws_sent ?s' = ws_sent s"
    by (rule run_steps_ws_sent)
  show ?case
  proof (cases rule: send_to_all_cases [where net = net and c = c and msg = msg and lib = lib and s = s])
    case delivered
    let ?t = "?s'\<lparr>ws_sent := ws_sent ?s' @ [(c, msg)], LOG := LOG ?s' @ [Info_Sent_tags]\<rparr>"
    obtain served where "set served \<subseteq> set cs"
      "ws_sent (snd (send_to_all lib net msg cs ?t)) = ws_sent ?t @ map (\<lambda>c. (c, msg)) served"
      using Cons.IH [of ?t] by blast
    then have "set (c # served) \<subseteq> set (c # cs) \<and>
        ws_sent (snd (send_to_all lib net msg (c # cs) s)) =
          ws_sent s @ map (\<lambda>c. (c, msg)) (c # served)"
      using w by (auto simp: send_to_all_delivered [where net = net and c = c and msg = msg, OF delivered])
    then show ?thesis by blast
  next
    case (failed e)
    let ?t = "?s'\<lparr>LOG := LOG ?s' @ [Error_sending e],
      ACTIVE_CONNECTIONS := remove1 c (ACTIVE_CONNECTIONS ?s')\<rparr>"
    obtain served where "set served \<subseteq> set cs"
      "ws_sent (snd (send_to_all lib net msg cs ?t)) = ws_sent ?t @ map (\<lambda>c. (c, msg)) served"
      using Cons.IH [of ?t] by blast
    then have "set served \<subseteq> set (c # cs) \<and>
        ws_sent (snd (send_to_all lib net msg (c # cs) s)) =
          ws_sent s @ map (\<lambda>c. (c, msg)) served"
      using w by (auto simp: send_to_all_failed [where net = net and c = c and msg = msg, OF failed])
    then show ?thesis by blast
  next
    case (unregistered e)
    have "set [] \<subseteq> set (c # cs) \<and>
        ws_sent (snd (send_to_all lib net msg (c # cs) s)) = ws_sent s @ map (\<lambda>c. (c, msg)) []"
      using w by (simp add: send_to_all_unregistered [where net = net and c = c and msg = msg, OF unregistered])
    then show ?thesis by blast
  next
    case (cancelled e)
    have "set [] \<subseteq> set (c # cs) \<and>
        ws_sent (snd (send_to_all lib net msg (c # cs) s)) = ws_sent s @ map (\<lambda>c. (c, msg)) []"
      using w by (simp add: send_to_all_cancelled [where net = net and c = c and msg = msg, OF cancelled])
    then show ?thesis by blast
  qed
qed

lemma send_to_all_returns:
  "fst (send_to_all lib net msg cs s) = Inr () \<Longrightarrow>
   ws_sent (snd (send_to_all lib net msg cs s)) =
     ws_sent s @ map (\<lambda>c. (c, msg)) (filter (delivered net msg) cs)"
proof (induction cs arbitrary: s)
  case Nil
  show ?case by simp
next
  case (Cons c cs)
  let ?s' = "run_steps lib (snd (net c msg)) s"
  have w: "ws_sent ?s' = ws_sent s"
    by (rule run_steps_ws_sent)
  show ?case
  proof (cases rule: send_to_all_cases [where net = net and c = c and msg = msg and lib = lib and s = s])
    case delivered
    let ?t = "?s'\<lparr>ws_sent := ws_sent ?s' @ [(c, msg)], LOG := LOG ?s' @ [Info_Sent_tags]\<rparr>"
    have d: "delivered net msg c"
      using delivered by (simp add: delivered_def)
    have "fst (send_to_all lib net msg cs ?t) = Inr ()"
      using Cons.prems by (simp add: send_to_all_delivered [where net = net and c = c and msg = msg, OF delivered])
    from Cons.IH [OF this] show ?thesis
      using w d by (simp add: send_to_all_delivered [where net = net and c = c and msg = msg, OF delivered])
  next
    case (failed e)
    let ?t = "?s'\<lparr>LOG := LOG ?s' @ [Error_sending e],
      ACTIVE_CONNECTIONS := remove1 c (ACTIVE_CONNECTIONS ?s')\<rparr>"
    have d: "\<not> delivered net msg c"
      using failed(1) by (simp add: delivered_def)
    have "fst (send_to_all lib net msg cs ?t) = Inr ()"
      using Cons.prems by (simp add: send_to_all_failed [where net = net and c = c and msg = msg, OF failed])
    from Cons.IH [OF this] show ?thesis
      using w d by (simp add: send_to_all_failed [where net = net and c = c and msg = msg, OF failed])
  next
    case (unregistered e)
    then show ?thesis
      using Cons.prems by (simp add: send_to_all_unregistered [where net = net and c = c and msg = msg, OF unregistered])
  next
    case (cancelled e)
    then show ?thesis
      using Cons.prems by (simp add: send_to_all_cancelled [where net = net and c = c and msg = msg, OF cancelled])
  qed
qed

lemma send_to_all_calm:
  "calm net msg cs \<Longrightarrow> ACTIVE_CONNECTIONS s = pre @ cs \<Longrightarrow> list_all (delivered net msg) pre \<Longrightarrow>
   fst (send_to_all lib net msg cs s) = Inr () \<and>
   ACTIVE_CONNECTIONS (snd (send_to_all lib net msg cs s)) = pre @ filter (delivered net msg) cs"
proof (induction cs arbitrary: s pre)
  case Nil
  then show ?case by simp
next
  case (Cons c cs)
  let ?s' = "run_steps lib (snd (net c msg)) s"
  have k: "list_all keeps_connections (snd (net c msg))"
    and x: "case fst (net c msg) of None \<Rightarrow> True | Some e \<Rightarrow> is_Exception e"
    and rest: "calm net msg cs"
    using Cons.prems(1) by (simp_all add: calm_def)
  have ac: "ACTIVE_CONNECTIONS ?s' = pre @ c # cs"
    using Cons.prems(2) by (simp add: run_steps_keeps [OF k])
  show ?case
  proof (cases "fst (net c msg)")
    case None
    let ?t = "?s'\<lparr>ws_sent := ws_sent ?s' @ [(c, msg)], LOG := LOG ?s' @ [Info_Sent_tags]\<rparr>"
    have d: "delivered net msg c"
      using None by (simp add: delivered_def)
    have "ACTIVE_CONNECTIONS ?t = (pre @ [c]) @ cs"
      using ac by simp
    moreover have "list_all (delivered net msg) (pre @ [c])"
      using Cons.prems(3) d by simp
    ultimately have "fst (send_to_all lib net msg cs ?t) = Inr () \<and>
        ACTIVE_CONNECTIONS (snd (send_to_all lib net msg cs ?t)) =
          (pre @ [c]) @ filter (delivered net msg) cs"
      by (rule Cons.IH [OF rest])
    then show ?thesis
      using d by (simp add: send_to_all_delivered [where net = net and c = c and msg = msg, OF None])
  next
    case (Some e)
    have ex: "is_Exception e"
      using x Some by simp
    have d: "\<not> delivered net msg c"
      using Some by (simp add: delivered_def)
    have notin: "c \<notin> set pre"
      using Cons.prems(3) d by (auto simp: list_all_iff)
    have reg: "c \<in> set (ACTIVE_CONNECTIONS ?s')"
      using ac by simp
    let ?t = "?s'\<lparr>LOG := LOG ?s' @ [Error_sending e],
      ACTIVE_CONNECTIONS := remove1 c (ACTIVE_CONNECTIONS ?s')\<rparr>"
    have "ACTIVE_CONNECTIONS ?t = pre @ cs"
      using ac notin by (simp add: remove1_append)
    then have "fst (send_to_all lib net msg cs ?t) = Inr () \<and>
        ACTIVE_CONNECTIONS (snd (send_to_all lib net msg cs ?t)) =
          pre @ filter (delivered net msg) cs"
      using Cons.prems(3) by (intro Cons.IH [OF rest])
    then show ?thesis
      using d by (simp add: send_to_all_failed [where net = net and c = c and msg = msg, OF Some ex reg])
  qed
qed

lemma send_to_all_quiet_queue:
  "list_all (\<lambda>c. snd (net c msg) = []) cs \<Longrightarrow>
   TAG_QUEUE (snd (send_to_all lib net msg cs s)) = TAG_QUEUE s"
proof (induction cs arbitrary: s)
  case Nil
  show ?case by simp
next
  case (Cons c cs)
  from Cons.prems have q: "snd (net c msg) = []" and rest: "list_all (\<lambda>c. snd (net c msg) = []) cs"
    by simp_all
  show ?case
    by (cases "fst (net c msg)")
       (simp_all add: send_to_all.simps(2) q Let_def logging_def list_remove_def Cons.IH [OF rest])
qed

lemma send_to_all_wire_ok:
  "wire_ok s \<Longrightarrow> is_tag_list tags \<Longrightarrow>
   wire_ok (snd (send_to_all lib net (JObj [(''tags'', tags)]) cs s))"
proof (induction cs arbitrary: s)
  case Nil
  then show ?case by simp
next
  case (Cons c cs)
  let ?msg = "JObj [(''tags'', tags)]"
  let ?s' = "run_steps lib (snd (net c ?msg)) s"
  have ok: "wire_ok ?s'"
    using Cons.prems(1) by (rule run_steps_wire_ok)
  show ?case
  proof (cases rule: send_to_all_cases [where net = net and c = c and msg = "?msg" and lib = lib and s = s])
    case delivered
    let ?t = "?s'\<lparr>ws_sent := ws_sent ?s' @ [(c, ?msg)], LOG := LOG ?s' @ [Info_Sent_tags]\<rparr>"
    have "wire_ok ?t"
      using ok Cons.prems(2) by (simp add: wire_ok_def is_tags_message_iff)
    from Cons.IH [OF this Cons.prems(2)] show ?thesis
      by (simp add: send_to_all_delivered [where net = net and c = c and msg = "?msg", OF delivered])
  next
    case (failed e)
    let ?t = "?s'\<lparr>LOG := LOG ?s' @ [Error_sending e],
      ACTIVE_CONNECTIONS := remove1 c (ACTIVE_CONNECTIONS ?s')\<rparr>"
    have "wire_ok ?t"
      using ok by (simp add: wire_ok_def)
    from Cons.IH [OF this Cons.prems(2)] show ?thesis
      by (simp add: send_to_all_failed [where net = net and c = c and msg = "?msg", OF failed])
  next
    case (unregistered e)
    show ?thesis
      using ok by (simp add: send_to_all_unregistered [where net = net and c = c and msg = "?msg", OF unregistered] wire_ok_def)
  next
    case (cancelled e)
    show ?thesis
      using ok by (simp add: send_to_all_cancelled [where net = net and c = c and msg = "?msg", OF cancelled])
  qed
qed

lemma process_queue_body_empty:
  "TAG_QUEUE s = [] \<Longrightarrow> process_queue_body lib net s = (Inr (), s)"
  by (simp add: process_queue_body_def)

lemma process_queue_body_nonempty:
  "TAG_QUEUE s = tags # rest \<Longrightarrow>
   process_queue_body lib net s =
     send_to_all lib net (JObj [(''tags'', tags)]) (ACTIVE_CONNECTIONS s)
       (s\<lparr>TAG_QUEUE := rest, LOG := LOG s @ [Info_Processing_tags tags]\<rparr>)"
  by (simp add: process_queue_body_def Let_def logging_def)

lemma two_batches_fields:
  "TAG_QUEUE two_batches = [JArr [model_dump old_tag], JArr [model_dump new_tag]]"
  "ACTIVE_CONNECTIONS two_batches = [5, 7, 9]"
  "ws_sent two_batches = []"
  by (simp_all add: two_batches_def tag_report_cb_ok [OF tag_records_e280]
      tag_report_cb_ok [OF tag_records_e281] initial_def)

lemma example_nets:
  "fst (reliable c m) = None" "snd (reliable c m) = []"
  "fst (drops_7 c m) = (if c = 7 then Some (OtherError ''connection closed'') else None)"
  "snd (drops_7 c m) = []"
  "fst (cancelled_at_7 c m) = (if c = 7 then Some CancelledError else None)"
  "snd (cancelled_at_7 c m) = []"
  "fst (report_at_5 c m) = (if c = 7 then Some (OtherError ''connection closed'') else None)"
  "snd (report_at_5 c m) = (if c = 5 then [Tag_report [report_e280]] else [])"
  "fst (disconnects_7 c m) = (if c = 7 then Some (OtherError ''connection closed'') else None)"
  "snd (disconnects_7 c m) = (if c = 5 then [Receive_failed WebSocketDisconnect 7] else [])"
  by (simp_all add: reliable_def drops_7_def cancelled_at_7_def report_at_5_def
      disconnects_7_def)

text \<open>
  Claim C2 says that an iteration which finds the queue non-empty drains it. Not so:
  \<open>TAG_QUEUE.get()\<close> is under an \<open>if\<close>, not a \<open>while\<close>. With two batches queued and
  nothing else running, the iteration takes the first and leaves the second in the queue.
\<close>

theorem queue_not_drained:
  "TAG_QUEUE two_batches = [JArr [model_dump old_tag], JArr [model_dump new_tag]]
   \<and> TAG_QUEUE (snd (process_queue_body example_library reliable two_batches)) =
       [JArr [model_dump new_tag]]"
  by (simp add: two_batches_fields process_queue_body_nonempty [OF two_batches_fields(1)]
      send_to_all_quiet_queue reliable_def)

text \<open>
  Claim C2, amended. An iteration that finds the queue non-empty takes one item off
  it, the oldest: the items behind it are still at the head of the queue when the
  iteration is over, followed by what the callback has put there meanwhile, and they
  are all of the queue when no step ran during the sends. The item goes as
  \<open>{"tags": item}\<close> to the connections that were in \<open>ACTIVE_CONNECTIONS\<close> when it was
  taken: when the iteration ends without an exception, the wire has got the message
  for every one of them whose send was delivered, in their order; and the iteration
  does end without an exception when the sends are calm, that is when no connection is
  opened or closed while they are awaited and the task is not cancelled.
\<close>

theorem one_item_per_iteration:
  "TAG_QUEUE s = tags # rest \<Longrightarrow>
     (\<exists>added. TAG_QUEUE (snd (process_queue_body lib net s)) = rest @ added)
   \<and> (list_all (\<lambda>c. snd (net c (JObj [(''tags'', tags)])) = []) (ACTIVE_CONNECTIONS s) \<longrightarrow>
        TAG_QUEUE (snd (process_queue_body lib net s)) = rest)
   \<and> (fst (process_queue_body lib net s) = Inr () \<longrightarrow>
        ws_sent (snd (process_queue_body lib net s)) =
          ws_sent s @ map (\<lambda>c. (c, JObj [(''tags'', tags)]))
            (filter (delivered net (JObj [(''tags'', tags)])) (ACTIVE_CONNECTIONS s)))
   \<and> (calm net (JObj [(''tags'', tags)]) (ACTIVE_CONNECTIONS s) \<longrightarrow>
        fst (process_queue_body lib net s) = Inr ())"
proof -
  assume q: "TAG_QUEUE s = tags # rest"
  let ?msg = "JObj [(''tags'', tags)]"
  let ?s1 = "s\<lparr>TAG_QUEUE := rest, LOG := LOG s @ [Info_Processing_tags tags]\<rparr>"
  note body = process_queue_body_nonempty [OF q, of lib net]
  have a: "\<exists>added. TAG_QUEUE (snd (process_queue_body lib net s)) = rest @ added"
    using send_to_all_queue [of lib net ?msg "ACTIVE_CONNECTIONS s" ?s1] by (simp add: body)
  have b: "TAG_QUEUE (snd (process_queue_body lib net s)) = rest"
    if "list_all (\<lambda>c. snd (net c ?msg) = []) (ACTIVE_CONNECTIONS s)"
    using send_to_all_quiet_queue [where net = net and msg = "?msg" and lib = lib
        and s = "?s1", OF that]
    by (simp add: body)
  have c: "ws_sent (snd (process_queue_body lib net s)) =
      ws_sent s @ map (\<lambda>c. (c, ?msg)) (filter (delivered net ?msg) (ACTIVE_CONNECTIONS s))"
    if "fst (process_queue_body lib net s) = Inr ()"
  proof -
    have "fst (send_to_all lib net ?msg (ACTIVE_CONNECTIONS s) ?s1) = Inr ()"
      using that by (simp add: body)
    from send_to_all_returns [OF this] show ?thesis
      by (simp add: body)
  qed
  have d: "fst (process_queue_body lib net s) = Inr ()"
    if "calm net ?msg (ACTIVE_CONNECTIONS s)"
    using send_to_all_calm [where net = net and msg = "?msg" and lib = lib and s = "?s1"
        and pre = "[]", OF that]
    by (simp add: body)
  show ?thesis
    using a b c d by blast
qed

theorem one_item_per_iteration_witness:
  "TAG_QUEUE two_batches = JArr [model_dump old_tag] # [JArr [model_dump new_tag]]
   \<and> calm report_at_5 (JObj [(''tags'', JArr [model_dump old_tag])]) (ACTIVE_CONNECTIONS two_batches)
   \<and> fst (process_queue_body example_library report_at_5 two_batches) = Inr ()
   \<and> ws_sent (snd (process_queue_body example_library report_at_5 two_batches)) =
       [(5, JObj [(''tags'', JArr [model_dump old_tag])]),
        (9, JObj [(''tags'', JArr [model_dump old_tag])])]
   \<and> list_all (\<lambda>c. snd (reliable c (JObj [(''tags'', JArr [model_dump old_tag])])) = [])
        (ACTIVE_CONNECTIONS two_batches)
   \<and> TAG_QUEUE (snd (process_queue_body example_library reliable two_batches)) =
       [JArr [model_dump new_tag]]"
proof -
  let ?m = "JObj [(''tags'', JArr [model_dump old_tag])]"
  have h: "TAG_QUEUE two_batches = JArr [model_dump old_tag] # [JArr [model_dump new_tag]]"
    by (simp add: two_batches_fields)
  have c: "calm report_at_5 ?m (ACTIVE_CONNECTIONS two_batches)"
    by (simp add: calm_def two_batches_fields example_nets keeps_connections_def
        is_Exception_def)
  have q: "list_all (\<lambda>c. snd (reliable c ?m) = []) (ACTIVE_CONNECTIONS two_batches)"
    by (simp add: two_batches_fields example_nets)
  have d: "delivered report_at_5 ?m c = (c \<noteq> 7)" for c
    by (simp add: delivered_def example_nets)
  note a = one_item_per_iteration [OF h, where lib = example_library and net = report_at_5]
  note b = one_item_per_iteration [OF h, where lib = example_library and net = reliable]
  from a c have r: "fst (process_queue_body example_library report_at_5 two_batches) = Inr ()"
    by blast
  with a have "ws_sent (snd (process_queue_body example_library report_at_5 two_batches)) =
      ws_sent two_batches @ map (\<lambda>c. (c, ?m))
        (filter (delivered report_at_5 ?m) (ACTIVE_CONNECTIONS two_batches))"
    by blast
  then have w: "ws_sent (snd (process_queue_body example_library report_at_5 two_batches)) =
      [(5, ?m), (9, ?m)]"
    by (simp add: two_batches_fields d)
  from b q have t: "TAG_QUEUE (snd (process_queue_body example_library reliable two_batches)) =
      [JArr [model_dump new_tag]]"
    by blast
  show ?thesis
    using h c r w q t by simp
qed

text \<open>
  Claim C4 says that a send which raises is logged, costs the connection its place in
  \<open>ACTIVE_CONNECTIONS\<close> and does not stop the loop. Not when what is raised is not an
  \<open>Exception\<close>: the \<open>task.cancel()\<close> of the shutdown raises \<open>CancelledError\<close> at the
  \<open>await\<close>, which \<open>except Exception\<close> lets pass. Cancelled while it sends to connection
  7, the loop ends with 7 still in \<open>ACTIVE_CONNECTIONS\<close> and nothing sent to 9.
\<close>

theorem cancelled_send_ends_loop:
  "fst (process_queue_body example_library cancelled_at_7 two_batches) = Inl CancelledError
   \<and> ACTIVE_CONNECTIONS (snd (process_queue_body example_library cancelled_at_7 two_batches)) =
       [5, 7, 9]
   \<and> ws_sent (snd (process_queue_body example_library cancelled_at_7 two_batches)) =
       [(5, JObj [(''tags'', JArr [model_dump old_tag])])]"
  by (simp add: process_queue_body_nonempty [OF two_batches_fields(1)] two_batches_fields
      send_to_all.simps(2) example_nets Let_def logging_def is_Exception_def)

text \<open>
  The \<open>remove\<close> of the \<open>except\<close> clause has no guard, where the one of the endpoint's
  second clause has. When the handler of connection 7 has run its own \<open>except\<close> clause
  while the loop was waiting for the send to 5, the send to 7 raises, \<open>remove\<close> does not
  find 7, and its \<open>ValueError\<close> ends the loop: nothing is sent to 9.
\<close>

lemma interleaved_remove_raises:
  "fst (process_queue_body example_library disconnects_7 two_batches) = Inl ValueError
   \<and> ACTIVE_CONNECTIONS (snd (process_queue_body example_library disconnects_7 two_batches)) =
       [5, 9]
   \<and> ws_sent (snd (process_queue_body example_library disconnects_7 two_batches)) =
       [(5, JObj [(''tags'', JArr [model_dump old_tag])])]"
  by (simp add: process_queue_body_nonempty [OF two_batches_fields(1)] two_batches_fields
      send_to_all.simps(2) example_nets Let_def logging_def is_Exception_def
      receive_failed_def list_remove_def)

text \<open>
  Claim C4, amended. When the send to a connection raises an \<open>Exception\<close> and the
  connection is still in \<open>ACTIVE_CONNECTIONS\<close> after the wait, the error is logged, the
  connection is removed, and the \<open>for\<close> loop goes on with the connections that remain.
  When the sends of an iteration are calm, no exception leaves the iteration,
  \<open>ACTIVE_CONNECTIONS\<close> keeps exactly the connections whose send was delivered, each of
  them has the message on the wire, and the loop goes on to its next iteration. What is
  raised and is not an \<open>Exception\<close> leaves the loop at once.
\<close>

theorem failed_send_removes_connection:
  "(fst (net c msg) = Some e \<and> is_Exception e \<and>
    c \<in> set (ACTIVE_CONNECTIONS (run_steps lib (snd (net c msg)) s)) \<longrightarrow>
      send_to_all lib net msg (c # cs) s =
        send_to_all lib net msg cs
          ((run_steps lib (snd (net c msg)) s)
             \<lparr>LOG := LOG (run_steps lib (snd (net c msg)) s) @ [Error_sending e],
              ACTIVE_CONNECTIONS :=
                remove1 c (ACTIVE_CONNECTIONS (run_steps lib (snd (net c msg)) s))\<rparr>))
   \<and> (TAG_QUEUE s = tags # rest \<and> calm net (JObj [(''tags'', tags)]) (ACTIVE_CONNECTIONS s) \<longrightarrow>
        fst (process_queue_body lib net s) = Inr ()
      \<and> ACTIVE_CONNECTIONS (snd (process_queue_body lib net s)) =
          filter (delivered net (JObj [(''tags'', tags)])) (ACTIVE_CONNECTIONS s)
      \<and> ws_sent (snd (process_queue_body lib net s)) =
          ws_sent s @ map (\<lambda>c. (c, JObj [(''tags'', tags)]))
            (filter (delivered net (JObj [(''tags'', tags)])) (ACTIVE_CONNECTIONS s))
      \<and> process_queue lib ((net, None, []) # ticks) s =
          process_queue lib ticks (snd (process_queue_body lib net s)))
   \<and> (fst (net c msg) = Some e \<and> \<not> is_Exception e \<longrightarrow>
        send_to_all lib net msg (c # cs) s = (Inl e, run_steps lib (snd (net c msg)) s))"
proof (intro conjI impI)
  assume "fst (net c msg) = Some e \<and> is_Exception e \<and>
    c \<in> set (ACTIVE_CONNECTIONS (run_steps lib (snd (net c msg)) s))"
  then show "send_to_all lib net msg (c # cs) s =
        send_to_all lib net msg cs
          ((run_steps lib (snd (net c msg)) s)
             \<lparr>LOG := LOG (run_steps lib (snd (net c msg)) s) @ [Error_sending e],
              ACTIVE_CONNECTIONS :=
                remove1 c (ACTIVE_CONNECTIONS (run_steps lib (snd (net c msg)) s))\<rparr>)"
    by (simp add: send_to_all_failed)
next
  assume "fst (net c msg) = Some e \<and> \<not> is_Exception e"
  then show "send_to_all lib net msg (c # cs) s = (Inl e, run_steps lib (snd (net c msg)) s)"
    by (simp add: send_to_all_cancelled)
next
  let ?msg = "JObj [(''tags'', tags)]"
  let ?s1 = "s\<lparr>TAG_QUEUE := rest, LOG := LOG s @ [Info_Processing_tags tags]\<rparr>"
  assume h: "TAG_QUEUE s = tags # rest \<and> calm net ?msg (ACTIVE_CONNECTIONS s)"
  then have q: "TAG_QUEUE s = tags # rest" and c: "calm net ?msg (ACTIVE_CONNECTIONS s)"
    by simp_all
  note body = process_queue_body_nonempty [OF q, of lib net]
  have r: "fst (send_to_all lib net ?msg (ACTIVE_CONNECTIONS s) ?s1) = Inr () \<and>
      ACTIVE_CONNECTIONS (snd (send_to_all lib net ?msg (ACTIVE_CONNECTIONS s) ?s1)) =
        [] @ filter (delivered net ?msg) (ACTIVE_CONNECTIONS s)"
    using send_to_all_calm [where net = net and msg = "?msg" and lib = lib and s = "?s1"
        and pre = "[]", OF c]
    by simp
  show ok: "fst (process_queue_body lib net s) = Inr ()"
    using r by (simp add: body)
  show "ACTIVE_CONNECTIONS (snd (process_queue_body lib net s)) =
      filter (delivered net ?msg) (ACTIVE_CONNECTIONS s)"
    using r by (simp add: body)
  show "ws_sent (snd (process_queue_body lib net s)) =
      ws_sent s @ map (\<lambda>c. (c, ?msg)) (filter (delivered net ?msg) (ACTIVE_CONNECTIONS s))"
    using r send_to_all_returns [of lib net ?msg "ACTIVE_CONNECTIONS s" ?s1]
    by (simp add: body)
  show "process_queue lib ((net, None, []) # ticks) s =
      process_queue lib ticks (snd (process_queue_body lib net s))"
    using ok by (cases "process_queue_body lib net s") simp
qed

theorem failed_send_removes_connection_witness:
  "fst (drops_7 7 (JObj [(''tags'', JArr [model_dump old_tag])])) =
       Some (OtherError ''connection closed'')
   \<and> is_Exception (OtherError ''connection closed'')
   \<and> 7 \<in> set (ACTIVE_CONNECTIONS (run_steps example_library
         (snd (drops_7 7 (JObj [(''tags'', JArr [model_dump old_tag])]))) two_batches))
   \<and> send_to_all example_library drops_7 (JObj [(''tags'', JArr [model_dump old_tag])])
         (7 # [9]) two_batches =
       send_to_all example_library drops_7 (JObj [(''tags'', JArr [model_dump old_tag])]) [9]
         (two_batches\<lparr>LOG := LOG two_batches @ [Error_sending (OtherError ''connection closed'')],
                      ACTIVE_CONNECTIONS := [5, 9]\<rparr>)
   \<and> TAG_QUEUE two_batches = JArr [model_dump old_tag] # [JArr [model_dump new_tag]]
   \<and> calm report_at_5 (JObj [(''tags'', JArr [model_dump old_tag])]) (ACTIVE_CONNECTIONS two_batches)
   \<and> fst (process_queue_body example_library report_at_5 two_batches) = Inr ()
   \<and> ACTIVE_CONNECTIONS (snd (process_queue_body example_library report_at_5 two_batches)) = [5, 9]
   \<and> fst (cancelled_at_7 7 (JObj [(''tags'', JArr [model_dump old_tag])])) = Some CancelledError
   \<and> \<not> is_Exception CancelledError
   \<and> send_to_all example_library cancelled_at_7 (JObj [(''tags'', JArr [model_dump old_tag])])
         (7 # [9]) two_batches = (Inl CancelledError, two_batches)"
proof -
  let ?m = "JObj [(''tags'', JArr [model_dump old_tag])]"
  let ?e = "OtherError ''connection closed''"
  have h1: "fst (drops_7 7 ?m) = Some ?e" and h2: "is_Exception ?e"
    and h3: "7 \<in> set (ACTIVE_CONNECTIONS (run_steps example_library (snd (drops_7 7 ?m)) two_batches))"
    by (simp_all add: example_nets is_Exception_def two_batches_fields)
  have h4: "TAG_QUEUE two_batches = JArr [model_dump old_tag] # [JArr [model_dump new_tag]]"
    by (simp add: two_batches_fields)
  have h5: "calm report_at_5 ?m (ACTIVE_CONNECTIONS two_batches)"
    by (simp add: calm_def two_batches_fields example_nets keeps_connections_def
        is_Exception_def)
  have h6: "fst (cancelled_at_7 7 ?m) = Some CancelledError" and h7: "\<not> is_Exception CancelledError"
    by (simp_all add: example_nets is_Exception_def)
  have d: "delivered report_at_5 ?m c = (c \<noteq> 7)" for c
    by (simp add: delivered_def example_nets)
  note a = failed_send_removes_connection [where net = drops_7 and c = 7 and msg = "?m"
      and e = "?e" and lib = example_library and s = two_batches and cs = "[9]"
      and tags = "JArr [model_dump old_tag]" and rest = "[JArr [model_dump new_tag]]"
      and ticks = "[]"]
  note b = failed_send_removes_connection [where net = report_at_5 and c = 7 and msg = "?m"
      and e = "?e" and lib = example_library and s = two_batches and cs = "[9]"
      and tags = "JArr [model_dump old_tag]" and rest = "[JArr [model_dump new_tag]]"
      and ticks = "[]"]
  note c = failed_send_removes_connection [where net = cancelled_at_7 and c = 7 and msg = "?m"
      and e = CancelledError and lib = example_library and s = two_batches and cs = "[9]"
      and tags = "JArr [model_dump old_tag]" and rest = "[JArr [model_dump new_tag]]"
      and ticks = "[]"]
  from a h1 h2 h3 have 1: "send_to_all example_library drops_7 ?m (7 # [9]) two_batches =
      send_to_all example_library drops_7 ?m [9]
        (two_batches\<lparr>LOG := LOG two_batches @ [Error_sending ?e],
                     ACTIVE_CONNECTIONS := [5, 9]\<rparr>)"
    by (simp add: example_nets two_batches_fields)
  from b h4 h5 have 2: "fst (process_queue_body example_library report_at_5 two_batches) = Inr ()"
    and 3: "ACTIVE_CONNECTIONS (snd (process_queue_body example_library report_at_5 two_batches)) =
      [5, 9]"
    by (simp_all add: two_batches_fields d)
  from c h6 h7 have 4: "send_to_all example_library cancelled_at_7 ?m (7 # [9]) two_batches =
      (Inl CancelledError, two_batches)"
    by (simp add: example_nets)
  show ?thesis
    using h1 h2 h3 h4 h5 h6 h7 1 2 3 4 by simp
qed

subsection \<open>Claims on the WebSocket endpoint\<close>

lemma two_open_connections: "ACTIVE_CONNECTIONS two_open = [5, 9]"
  by (simp add: two_open_def initial_def)

lemma receive_loop_texts: "receive_loop (map Text ms @ evs) = receive_loop evs"
  by (induction ms) simp_all

lemma websocket_endpoint_texts:
  "websocket_endpoint c a (map Text ms @ evs) s = websocket_endpoint c a evs s"
  by (cases a) (simp_all add: websocket_endpoint_def Let_def receive_loop_texts)

lemma receive_loop_only_texts: "receive_loop (map Text ms) = None"
  using receive_loop_texts [of ms "[]"] by simp

lemma websocket_endpoint_waiting:
  "websocket_endpoint c None (map Text ms) s =
     (None, s\<lparr>ACTIVE_CONNECTIONS := ACTIVE_CONNECTIONS s @ [c],
              LOG := LOG s @ [Info_New_WebSocket, Info_WebSocket_accepted]\<rparr>)"
  by (simp add: websocket_endpoint_def Let_def logging_def receive_loop_only_texts)

lemma websocket_endpoint_raised:
  "websocket_endpoint c None (map Text ms @ Raise e # evs) s =
     (Some (fst (receive_failed e c (snd (websocket_endpoint c None (map Text ms) s)))),
      snd (receive_failed e c (snd (websocket_endpoint c None (map Text ms) s))))"
  by (simp add: websocket_endpoint_def Let_def logging_def case_prod_beta receive_loop_texts
      receive_loop_only_texts)

lemma receive_failed_present:
  "is_Exception e \<Longrightarrow> websocket \<in> set (ACTIVE_CONNECTIONS s) \<Longrightarrow>
   receive_failed e websocket s =
     (Inr (), s\<lparr>ACTIVE_CONNECTIONS := remove1 websocket (ACTIVE_CONNECTIONS s),
               LOG := LOG s @ [if e = WebSocketDisconnect then Info_WebSocket_disconnected
                               else Error_WebSocket e]\<rparr>)"
  by (simp add: receive_failed_def Let_def logging_def list_remove_def)

lemma receive_failed_absent:
  "is_Exception e \<Longrightarrow> distinct (ACTIVE_CONNECTIONS s) \<Longrightarrow>
   websocket \<notin> set (ACTIVE_CONNECTIONS (snd (receive_failed e websocket s)))"
  by (simp add: receive_failed_def Let_def logging_def list_remove_def)

lemma receive_failed_cancelled:
  "\<not> is_Exception e \<Longrightarrow> receive_failed e websocket s = (Inl e, s)"
  by (auto simp: receive_failed_def is_Exception_def)

text \<open>
  Claim C5 says that the handler removes the connection whatever exception ends the
  receiving. Not a \<open>CancelledError\<close>: neither \<open>except\<close> clause catches it, and the handler
  is left with the connection still in \<open>ACTIVE_CONNECTIONS\<close>.
\<close>

theorem cancelled_handler_keeps_connection:
  "fst (websocket_endpoint 7 None [Text ''ping'', Raise CancelledError] two_open) =
     Some (Inl CancelledError)
   \<and> ACTIVE_CONNECTIONS (snd (websocket_endpoint 7 None [Text ''ping'', Raise CancelledError] two_open)) =
     [5, 9, 7]"
  by (simp add: websocket_endpoint_def Let_def logging_def receive_failed_def
      is_Exception_def two_open_connections)

text \<open>
  Claim C5, amended. Once accepted, the connection is in \<open>ACTIVE_CONNECTIONS\<close>, at the
  end, for as long as the handler waits for texts. When \<open>receive_text\<close> raises, the
  handler is its \<open>except\<close> clauses run on the globals of that moment. For
  \<open>WebSocketDisconnect\<close> or any other \<open>Exception\<close>: if the connection is in
  \<open>ACTIVE_CONNECTIONS\<close> the clause returns and has removed it; in every state where no
  connection is twice in \<open>ACTIVE_CONNECTIONS\<close> the connection is not in it afterwards;
  and with nothing else running, for a connection that was not yet in
  \<open>ACTIVE_CONNECTIONS\<close>, the handler returns and \<open>ACTIVE_CONNECTIONS\<close> is what it was
  before the accept. What is not an \<open>Exception\<close> passes both clauses and changes nothing.
\<close>

theorem disconnected_websocket_removed:
  "fst (websocket_endpoint websocket None (map Text ms) s) = None
   \<and> ACTIVE_CONNECTIONS (snd (websocket_endpoint websocket None (map Text ms) s)) =
       ACTIVE_CONNECTIONS s @ [websocket]
   \<and> websocket_endpoint websocket None (map Text ms @ Raise e # evs) s =
       (Some (fst (receive_failed e websocket (snd (websocket_endpoint websocket None (map Text ms) s)))),
        snd (receive_failed e websocket (snd (websocket_endpoint websocket None (map Text ms) s))))
   \<and> (is_Exception e \<and> websocket \<in> set (ACTIVE_CONNECTIONS s') \<longrightarrow>
        fst (receive_failed e websocket s') = Inr ()
      \<and> ACTIVE_CONNECTIONS (snd (receive_failed e websocket s')) =
          remove1 websocket (ACTIVE_CONNECTIONS s'))
   \<and> (is_Exception e \<and> distinct (ACTIVE_CONNECTIONS s') \<longrightarrow>
        websocket \<notin> set (ACTIVE_CONNECTIONS (snd (receive_failed e websocket s'))))
   \<and> (is_Exception e \<and> websocket \<notin> set (ACTIVE_CONNECTIONS s) \<longrightarrow>
        fst (websocket_endpoint websocket None (map Text ms @ Raise e # evs) s) = Some (Inr ())
      \<and> ACTIVE_CONNECTIONS (snd (websocket_endpoint websocket None (map Text ms @ Raise e # evs) s)) =
          ACTIVE_CONNECTIONS s)
   \<and> (\<not> is_Exception e \<longrightarrow> receive_failed e websocket s' = (Inl e, s'))"
proof -
  let ?w = "snd (websocket_endpoint websocket None (map Text ms) s)"
  have w: "ACTIVE_CONNECTIONS ?w = ACTIVE_CONNECTIONS s @ [websocket]"
    by (simp add: websocket_endpoint_waiting)
  have whole: "fst (websocket_endpoint websocket None (map Text ms @ Raise e # evs) s) = Some (Inr ())
      \<and> ACTIVE_CONNECTIONS (snd (websocket_endpoint websocket None (map Text ms @ Raise e # evs) s)) =
          ACTIVE_CONNECTIONS s"
    if ex: "is_Exception e" and fresh: "websocket \<notin> set (ACTIVE_CONNECTIONS s)"
  proof -
    have "websocket \<in> set (ACTIVE_CONNECTIONS ?w)"
      by (simp add: w)
    from receive_failed_present [OF ex this] show ?thesis
      using fresh by (simp add: websocket_endpoint_raised w remove1_append)
  qed
  show ?thesis
    using whole
    by (simp add: websocket_endpoint_waiting websocket_endpoint_raised receive_failed_present
        receive_failed_absent receive_failed_cancelled)
qed

theorem disconnected_websocket_removed_witness:
  "ACTIVE_CONNECTIONS (snd (websocket_endpoint 7 None (map Text [''ping'']) two_open)) = [5, 9, 7]
   \<and> is_Exception WebSocketDisconnect
   \<and> 7 \<notin> set (ACTIVE_CONNECTIONS two_open)
   \<and> fst (websocket_endpoint 7 None (map Text [''ping''] @ Raise WebSocketDisconnect # []) two_open)
       = Some (Inr ())
   \<and> ACTIVE_CONNECTIONS
        (snd (websocket_endpoint 7 None (map Text [''ping''] @ Raise WebSocketDisconnect # []) two_open))
       = [5, 9]
   \<and> 9 \<in> set (ACTIVE_CONNECTIONS two_open)
   \<and> distinct (ACTIVE_CONNECTIONS two_open)
   \<and> fst (receive_failed WebSocketDisconnect 9 two_open) = Inr ()
   \<and> ACTIVE_CONNECTIONS (snd (receive_failed WebSocketDisconnect 9 two_open)) = [5]
   \<and> \<not> is_Exception CancelledError
   \<and> receive_failed CancelledError 9 two_open = (Inl CancelledError, two_open)"
proof -
  have h1: "is_Exception WebSocketDisconnect" and h2: "7 \<notin> set (ACTIVE_CONNECTIONS two_open)"
    and h3: "9 \<in> set (ACTIVE_CONNECTIONS two_open)" and h4: "distinct (ACTIVE_CONNECTIONS two_open)"
    and h5: "\<not> is_Exception CancelledError"
    by (simp_all add: is_Exception_def two_open_connections)
  note a = disconnected_websocket_removed [where websocket = 7 and ms = "[''ping'']"
      and s = two_open and e = WebSocketDisconnect and evs = "[]" and s' = two_open]
  note b = disconnected_websocket_removed [where websocket = 9 and ms = "[''ping'']"
      and s = two_open and e = WebSocketDisconnect and evs = "[]" and s' = two_open]
  note c = disconnected_websocket_removed [where websocket = 9 and ms = "[''ping'']"
      and s = two_open and e = CancelledError and evs = "[]" and s' = two_open]
  from a have "ACTIVE_CONNECTIONS (snd (websocket_endpoint 7 None (map Text [''ping'']) two_open)) =
      ACTIVE_CONNECTIONS two_open @ [7]"
    by blast
  then have 1: "ACTIVE_CONNECTIONS (snd (websocket_endpoint 7 None (map Text [''ping'']) two_open)) =
      [5, 9, 7]"
    by (simp only: two_open_connections append.simps)
  from a h1 h2 have 2: "fst (websocket_endpoint 7 None
        (map Text [''ping''] @ Raise WebSocketDisconnect # []) two_open) = Some (Inr ())"
    and "ACTIVE_CONNECTIONS (snd (websocket_endpoint 7 None
        (map Text [''ping''] @ Raise WebSocketDisconnect # []) two_open)) = ACTIVE_CONNECTIONS two_open"
    by blast+
  then have 3: "ACTIVE_CONNECTIONS (snd (websocket_endpoint 7 None
        (map Text [''ping''] @ Raise WebSocketDisconnect # []) two_open)) = [5, 9]"
    by (simp only: two_open_connections)
  from b h1 h3 have 4: "fst (receive_failed WebSocketDisconnect 9 two_open) = Inr ()"
    and "ACTIVE_CONNECTIONS (snd (receive_failed WebSocketDisconnect 9 two_open)) =
      remove1 9 (ACTIVE_CONNECTIONS two_open)"
    by blast+
  then have 5: "ACTIVE_CONNECTIONS (snd (receive_failed WebSocketDisconnect 9 two_open)) = [5]"
    by (simp add: two_open_connections)
  from c h5 have 6: "receive_failed CancelledError 9 two_open = (Inl CancelledError, two_open)"
    by blast
  show ?thesis
    using h1 h2 h3 h4 h5 1 2 3 4 5 6 by blast
qed

subsection \<open>Claim on the WebSocket messages\<close>

lemma process_queue_body_wire_ok:
  "wire_ok s \<Longrightarrow> wire_ok (snd (process_queue_body lib net s))"
proof (cases "TAG_QUEUE s")
  case Nil
  assume "wire_ok s"
  then show ?thesis by (simp add: process_queue_body_empty [OF Nil])
next
  case (Cons tags rest)
  assume ok: "wire_ok s"
  let ?s1 = "s\<lparr>TAG_QUEUE := rest, LOG := LOG s @ [Info_Processing_tags tags]\<rparr>"
  have "wire_ok ?s1" and "is_tag_list tags"
    using ok Cons by (simp_all add: wire_ok_def)
  then have "wire_ok (snd (send_to_all lib net (JObj [(''tags'', tags)]) (ACTIVE_CONNECTIONS s) ?s1))"
    by (rule send_to_all_wire_ok)
  then show ?thesis
    by (simp add: process_queue_body_nonempty [OF Cons])
qed

lemma perform_wire_ok: "wire_ok s \<Longrightarrow> wire_ok (perform lib op s)"
  by (cases op) (simp_all add: do_step_wire_ok process_queue_body_wire_ok)

lemma run_wire_ok: "wire_ok s \<Longrightarrow> wire_ok (run lib ops s)"
  by (induction ops arbitrary: s) (simp_all add: perform_wire_ok)

lemma wire_ok_initial: "wire_ok initial"
  by (simp add: wire_ok_def initial_def)

lemma perform_sends_nothing:
  "(case op of Poll net \<Rightarrow> True | Step st \<Rightarrow> ws_sent (perform lib op s) = ws_sent s)"
  by (cases op) (simp_all add: do_step_ws_sent)

lemma process_queue_body_served:
  "\<exists>served. set served \<subseteq> set (ACTIVE_CONNECTIONS s) \<and>
     ws_sent (snd (process_queue_body lib net s)) =
       ws_sent s @
       (case TAG_QUEUE s of
          [] \<Rightarrow> []
        | tags # rest \<Rightarrow> map (\<lambda>c. (c, JObj [(''tags'', tags)])) served)"
proof (cases "TAG_QUEUE s")
  case Nil
  then have "set [] \<subseteq> set (ACTIVE_CONNECTIONS s) \<and>
     ws_sent (snd (process_queue_body lib net s)) =
       ws_sent s @
       (case TAG_QUEUE s of
          [] \<Rightarrow> []
        | tags # rest \<Rightarrow> map (\<lambda>c. (c, JObj [(''tags'', tags)])) [])"
    by (simp add: process_queue_body_empty)
  then show ?thesis by blast
next
  case (Cons tags rest)
  let ?s1 = "s\<lparr>TAG_QUEUE := rest, LOG := LOG s @ [Info_Processing_tags tags]\<rparr>"
  obtain served where "set served \<subseteq> set (ACTIVE_CONNECTIONS s)"
    "ws_sent (snd (send_to_all lib net (JObj [(''tags'', tags)]) (ACTIVE_CONNECTIONS s) ?s1)) =
       ws_sent ?s1 @ map (\<lambda>c. (c, JObj [(''tags'', tags)])) served"
    using send_to_all_served [of "ACTIVE_CONNECTIONS s" lib net "JObj [(''tags'', tags)]" ?s1]
    by blast
  then have "set served \<subseteq> set (ACTIVE_CONNECTIONS s) \<and>
     ws_sent (snd (process_queue_body lib net s)) =
       ws_sent s @
       (case TAG_QUEUE s of
          [] \<Rightarrow> []
        | tags # rest \<Rightarrow> map (\<lambda>c. (c, JObj [(''tags'', tags)])) served)"
    using Cons by (simp add: process_queue_body_nonempty [OF Cons])
  then show ?thesis by blast
qed

lemma process_queue_body_returns:
  "fst (process_queue_body lib net s) = Inr () \<Longrightarrow>
   ws_sent (snd (process_queue_body lib net s)) =
     ws_sent s @
     (case TAG_QUEUE s of
        [] \<Rightarrow> []
      | tags # rest \<Rightarrow>
          map (\<lambda>c. (c, JObj [(''tags'', tags)]))
            (filter (delivered net (JObj [(''tags'', tags)])) (ACTIVE_CONNECTIONS s)))"
proof (cases "TAG_QUEUE s")
  case Nil
  then show ?thesis by (simp add: process_queue_body_empty)
next
  case (Cons tags rest)
  let ?s1 = "s\<lparr>TAG_QUEUE := rest, LOG := LOG s @ [Info_Processing_tags tags]\<rparr>"
  assume "fst (process_queue_body lib net s) = Inr ()"
  then have "fst (send_to_all lib net (JObj [(''tags'', tags)]) (ACTIVE_CONNECTIONS s) ?s1) = Inr ()"
    by (simp add: process_queue_body_nonempty [OF Cons])
  from send_to_all_returns [OF this] show ?thesis
    using Cons by (simp add: process_queue_body_nonempty [OF Cons])
qed

text \<open>
  Claim C7. Whatever the service has gone through since the module was imported, steps
  and iterations of the polling loop with steps during their sends, every message on
  the wire has the shape \<open>{"tags": [...]}\<close>. Only the polling loop sends: what an
  iteration adds to the wire is \<open>{"tags": item}\<close>, for the item it took from the queue,
  to connections that were in \<open>ACTIVE_CONNECTIONS\<close>, and to every one of them whose send
  was delivered when the iteration ends without an exception. Texts received from the
  client change nothing: the handler with the texts is the handler without them; while
  only texts have come, the globals are those left by the accept; and the endpoint
  never touches \<open>TAG_DATA\<close>, \<open>TAG_QUEUE\<close> or the wire.
\<close>

theorem websocket_messages_and_ignored_texts:
  "list_all (\<lambda>p. is_tags_message (snd p)) (ws_sent (run lib ops initial))
   \<and> (case op of Poll net \<Rightarrow> True | Step st \<Rightarrow> ws_sent (perform lib op s) = ws_sent s)
   \<and> (\<exists>served. set served \<subseteq> set (ACTIVE_CONNECTIONS s) \<and>
        ws_sent (snd (process_queue_body lib net s)) =
          ws_sent s @
          (case TAG_QUEUE s of
             [] \<Rightarrow> []
           | tags # rest \<Rightarrow> map (\<lambda>c. (c, JObj [(''tags'', tags)])) served))
   \<and> (fst (process_queue_body lib net s) = Inr () \<longrightarrow>
        ws_sent (snd (process_queue_body lib net s)) =
          ws_sent s @
          (case TAG_QUEUE s of
             [] \<Rightarrow> []
           | tags # rest \<Rightarrow>
               map (\<lambda>c. (c, JObj [(''tags'', tags)]))
                 (filter (delivered net (JObj [(''tags'', tags)])) (ACTIVE_CONNECTIONS s))))
   \<and> websocket_endpoint c a (map Text ms @ evs) s = websocket_endpoint c a evs s
   \<and> websocket_endpoint c None (map Text ms) s =
       (None, s\<lparr>ACTIVE_CONNECTIONS := ACTIVE_CONNECTIONS s @ [c],
                LOG := LOG s @ [Info_New_WebSocket, Info_WebSocket_accepted]\<rparr>)
   \<and> TAG_DATA (snd (websocket_endpoint c a evs s)) = TAG_DATA s
   \<and> TAG_QUEUE (snd (websocket_endpoint c a evs s)) = TAG_QUEUE s
   \<and> ws_sent (snd (websocket_endpoint c a evs s)) = ws_sent s"
proof -
  have "wire_ok (run lib ops initial)"
    by (rule run_wire_ok) (rule wire_ok_initial)
  then have 1: "list_all (\<lambda>p. is_tags_message (snd p)) (ws_sent (run lib ops initial))"
    by (simp add: wire_ok_def)
  note 2 = perform_sends_nothing [where op = op and lib = lib and s = s]
  note 3 = process_queue_body_served [of s lib net]
  note 4 = process_queue_body_returns [of lib net s]
  show ?thesis
    using 1 2 3 4
    by (simp add: websocket_endpoint_texts websocket_endpoint_waiting websocket_endpoint_frame)
qed

lemma session_run:
  "ws_sent (run example_library (butlast session) initial) = []"
  "TAG_QUEUE (run example_library (butlast session) initial) = [JArr [model_dump old_tag]]"
  "ACTIVE_CONNECTIONS (run example_library (butlast session) initial) = [5]"
  by (simp_all add: session_def websocket_endpoint_def Let_def logging_def initial_def
      tag_report_cb_ok [OF tag_records_e280])

theorem websocket_messages_witness:
  "fst (process_queue_body example_library reliable
          (run example_library (butlast session) initial)) = Inr ()
   \<and> ws_sent (snd (process_queue_body example_library reliable
          (run example_library (butlast session) initial))) =
       [(5, JObj [(''tags'', JArr [model_dump old_tag])])]
   \<and> list_all (\<lambda>p. is_tags_message (snd p)) (ws_sent (run example_library session initial))"
proof -
  let ?s = "run example_library (butlast session) initial"
  let ?m = "JObj [(''tags'', JArr [model_dump old_tag])]"
  have r: "fst (process_queue_body example_library reliable ?s) = Inr ()"
    by (simp add: process_queue_body_nonempty [OF session_run(2)] session_run
        send_to_all.simps(2) example_nets Let_def logging_def)
  have d: "delivered reliable ?m c" for c
    by (simp add: delivered_def example_nets)
  note w = websocket_messages_and_ignored_texts [where lib = example_library and ops = session
      and op = "Poll reliable" and s = "?s" and net = reliable and c = 5 and a = None
      and ms = "[]" and evs = "[]"]
  from w r have "ws_sent (snd (process_queue_body example_library reliable ?s)) = [(5, ?m)]"
    by (simp add: session_run d)
  moreover from w have "list_all (\<lambda>p. is_tags_message (snd p))
      (ws_sent (run example_library session initial))"
    by blast
  ultimately show ?thesis
    using r by blast
qed

end
